theory Spec2Isabelle
  imports Main "HOL-Library.AList"
begin

section \<open>Mass Assignment Radar: the backend scan engine\<close>

text \<open>
  A shallow embedding of \<^verbatim>\<open>packages/backend/src/index.ts\<close>. Every function of the
  source that a property below depends on is a HOL function of the same name.

  What belongs to the JavaScript runtime rather than to the repository is a parameter:
  the arithmetic and printing of numbers (IEEE doubles), \<^verbatim>\<open>JSON.parse\<close> and
  \<^verbatim>\<open>JSON.stringify\<close> are the fields of a record \<open>runtime\<close>, and the request store of
  the host is a record \<open>sdk\<close> of functions over a host state. Nothing is assumed about
  them; the theorems hold for every runtime and every host.

  Strings are \<open>char list\<close>; \<^verbatim>\<open>trim\<close> and \<^verbatim>\<open>toLowerCase\<close> are modelled on ASCII.
\<close>

subsection \<open>Strings\<close>

text \<open>
  The white space that \<^verbatim>\<open>trim\<close> strips, within ASCII. (The source's \<^verbatim>\<open>trim\<close> also strips the
  white space outside ASCII, such as U+00A0, U+2028 and U+FEFF.)
\<close>

definition isWhiteSpace :: "char \<Rightarrow> bool" where
  "isWhiteSpace c = (c \<in> set [CHR 0x09, CHR 0x0A, CHR 0x0B, CHR 0x0C, CHR 0x0D, CHR '' ''])"

definition trimStart :: "string \<Rightarrow> string" where
  "trimStart s = dropWhile isWhiteSpace s"

definition trimEnd :: "string \<Rightarrow> string" where
  "trimEnd s = rev (dropWhile isWhiteSpace (rev s))"

definition trim :: "string \<Rightarrow> string" where
  "trim s = trimEnd (trimStart s)"

text \<open>\<^verbatim>\<open>s.split(c)\<close> for a one-character separator: never empty, \<^verbatim>\<open>"".split(".")\<close> is \<^verbatim>\<open>[""]\<close>.\<close>

fun splitOn :: "char \<Rightarrow> string \<Rightarrow> string list" where
  "splitOn c [] = [[]]"
| "splitOn c (x # xs) =
     (if x = c then [] # splitOn c xs
      else (case splitOn c xs of [] \<Rightarrow> [[x]] | p # ps \<Rightarrow> (x # p) # ps))"

definition startsWith :: "string \<Rightarrow> string \<Rightarrow> bool" where
  "startsWith s p = (take (length p) s = p)"

definition endsWith :: "string \<Rightarrow> string \<Rightarrow> bool" where
  "endsWith s p = (length p \<le> length s \<and> drop (length s - length p) s = p)"

definition isDigit :: "char \<Rightarrow> bool" where
  "isDigit c = (c \<in> set ''0123456789'')"

text \<open>\<^verbatim>\<open>String(n)\<close> for an integer \<open>n\<close>, and \<^verbatim>\<open>xs.join(sep)\<close>.\<close>

fun showNat :: "nat \<Rightarrow> string" where
  "showNat n =
     (if n < 10 then [''0123456789'' ! n]
      else showNat (n div 10) @ [''0123456789'' ! (n mod 10)])"

declare showNat.simps [simp del]

definition showInt :: "int \<Rightarrow> string" where
  "showInt i = (if i < 0 then ''-'' @ showNat (nat (- i)) else showNat (nat i))"

fun joinWith :: "string \<Rightarrow> string list \<Rightarrow> string" where
  "joinWith sep [] = []"
| "joinWith sep [x] = x"
| "joinWith sep (x # xs) = x @ sep @ joinWith sep xs"

definition toLowerCase :: "string \<Rightarrow> string" where
  "toLowerCase s =
     map (\<lambda>c. case map_of (zip ''ABCDEFGHIJKLMNOPQRSTUVWXYZ'' ''abcdefghijklmnopqrstuvwxyz'') c of
                None \<Rightarrow> c
              | Some l \<Rightarrow> l) s"

text \<open>\<^verbatim>\<open>s.includes(sub)\<close>.\<close>

fun includesText :: "string \<Rightarrow> string \<Rightarrow> bool" where
  "includesText [] sub = (sub = [])"
| "includesText (c # cs) sub = (startsWith (c # cs) sub \<or> includesText cs sub)"

text \<open>\<^verbatim>\<open>truncateText\<close>, on a text that may be \<^verbatim>\<open>undefined\<close>.\<close>

definition truncateText :: "string option \<Rightarrow> nat \<Rightarrow> string option" where
  "truncateText text maxLen =
     (case text of
        None \<Rightarrow> None
      | Some t \<Rightarrow> if length t \<le> maxLen then Some t else Some (take maxLen t))"

subsection \<open>JSON values and JavaScript objects\<close>

text \<open>
  A parsed JSON value. The source's type \<^verbatim>\<open>JSONValue\<close> has \<^verbatim>\<open>undefined\<close> where JSON has
  \<^verbatim>\<open>null\<close>, but \<^verbatim>\<open>JSON.parse\<close> returns \<^verbatim>\<open>null\<close> and the code tests for it, so the tree has
  \<open>JNull\<close>, and \<^verbatim>\<open>undefined\<close> is \<open>None\<close> of an option. An object is the list of its own
  enumerable properties in enumeration order.
\<close>

datatype 'n json =
    JNull
  | JBool bool
  | JNum 'n
  | JStr string
  | JArr "'n json list"
  | JObj "(string \<times> 'n json) list"

type_synonym 'n JSONObject = "(string \<times> 'n json) list"

text \<open>
  The operator \<^verbatim>\<open>in\<close> and a property read \<^verbatim>\<open>o[k]\<close> see more than the own properties:
  every object made by \<^verbatim>\<open>JSON.parse\<close>, by \<^verbatim>\<open>{}\<close> or by a spread inherits from
  \<^verbatim>\<open>Object.prototype\<close>. Its members are functions, except the accessor \<^verbatim>\<open>__proto__\<close>,
  whose getter returns the prototype (for a plain object \<^verbatim>\<open>Object.prototype\<close> itself, for
  \<^verbatim>\<open>Object.prototype\<close> the value \<^verbatim>\<open>null\<close>) and whose setter ignores every value that is
  neither an object nor \<^verbatim>\<open>null\<close>. A value met while reading properties is therefore one
  of the following.
\<close>

datatype 'v jsval =
    Undefined
  | Val 'v
  | ObjectPrototype
  | BuiltinFunction

definition objectPrototypeMethods :: "string list" where
  "objectPrototypeMethods =
     [''constructor'', ''hasOwnProperty'', ''isPrototypeOf'', ''propertyIsEnumerable'',
      ''toLocaleString'', ''toString'', ''valueOf'', ''__defineGetter__'',
      ''__defineSetter__'', ''__lookupGetter__'', ''__lookupSetter__'']"

definition ownKeys :: "(string \<times> 'v) list \<Rightarrow> string set" where
  "ownKeys ps = fst ` set ps"

text \<open>\<^verbatim>\<open>k in o\<close> and \<^verbatim>\<open>o[k]\<close> for a plain object \<open>o\<close> with the own properties \<open>ps\<close>.\<close>

definition hasProperty :: "(string \<times> 'v) list \<Rightarrow> string \<Rightarrow> bool" where
  "hasProperty ps k =
     (k \<in> ownKeys ps \<or> k = ''__proto__'' \<or> k \<in> set objectPrototypeMethods)"

definition getProperty :: "(string \<times> 'v) list \<Rightarrow> string \<Rightarrow> 'v jsval" where
  "getProperty ps k =
     (case map_of ps k of
        Some v \<Rightarrow> Val v
      | None \<Rightarrow>
          if k = ''__proto__'' then ObjectPrototype
          else if k \<in> set objectPrototypeMethods then BuiltinFunction
          else Undefined)"

text \<open>The same two operations on any value that passes \<^verbatim>\<open>isRecord\<close>.\<close>

fun isRecord :: "'n json jsval \<Rightarrow> bool" where
  "isRecord (Val (JObj ps)) = True"
| "isRecord ObjectPrototype = True"
| "isRecord v = False"

fun jsIn :: "string \<Rightarrow> 'n json jsval \<Rightarrow> bool" where
  "jsIn k (Val (JObj ps)) = hasProperty ps k"
| "jsIn k ObjectPrototype = (k = ''__proto__'' \<or> k \<in> set objectPrototypeMethods)"
| "jsIn k v = False"

fun jsGet :: "'n json jsval \<Rightarrow> string \<Rightarrow> 'n json jsval" where
  "jsGet (Val (JObj ps)) k = getProperty ps k"
| "jsGet ObjectPrototype k =
     (if k = ''__proto__'' then Val JNull
      else if k \<in> set objectPrototypeMethods then BuiltinFunction
      else Undefined)"
| "jsGet v k = Undefined"

text \<open>
  The test \<^verbatim>\<open>typeof v === "string" || typeof v === "number" || typeof v === "boolean" || v === null\<close>,
  and the primitive it lets through.
\<close>

fun primitiveOf :: "'n json jsval \<Rightarrow> 'n json option" where
  "primitiveOf (Val JNull) = Some JNull"
| "primitiveOf (Val (JBool b)) = Some (JBool b)"
| "primitiveOf (Val (JNum n)) = Some (JNum n)"
| "primitiveOf (Val (JStr s)) = Some (JStr s)"
| "primitiveOf v = None"

text \<open>
  An assignment \<^verbatim>\<open>o[k] = v\<close> to a plain object: an own property is overwritten in place;
  a new one is appended, except that \<^verbatim>\<open>__proto__\<close>, when it is not an own property, runs the
  inherited setter, which never creates a property. (What that setter does to the prototype
  link for an object value is not part of the tree of own properties, which is all that
  \<^verbatim>\<open>JSON.stringify\<close> reads.) The list keeps the keys in the order of their first assignment;
  that JavaScript enumerates integer-like keys first, in ascending order, is not modelled.
\<close>

definition assignProperty :: "(string \<times> 'v) list \<Rightarrow> string \<Rightarrow> 'v \<Rightarrow> (string \<times> 'v) list" where
  "assignProperty ps k v =
     (if k = ''__proto__'' \<and> k \<notin> ownKeys ps then ps else AList.update k v ps)"

text \<open>The spread \<^verbatim>\<open>{ ...next }\<close> of a value that passed \<^verbatim>\<open>isRecord\<close>: its own enumerable properties.\<close>

fun spread :: "'n json jsval \<Rightarrow> 'n JSONObject" where
  "spread (Val (JObj ps)) = ps"
| "spread v = []"

subsection \<open>The runtime\<close>

text \<open>
  \<^verbatim>\<open>String(n)\<close>, \<^verbatim>\<open>Number(s)\<close>, the number of an integer literal, \<^verbatim>\<open>+\<close> and
  \<^verbatim>\<open>Number.isFinite\<close> on numbers; \<^verbatim>\<open>JSON.stringify\<close>; \<^verbatim>\<open>JSON.parse\<close>, with \<open>None\<close> where it
  throws; and the text \<^verbatim>\<open>String(f)\<close> of the function that \<^verbatim>\<open>Object.prototype\<close> has under a name.
\<close>

record 'n runtime =
  numToString :: "'n \<Rightarrow> string"
  numOfString :: "string \<Rightarrow> 'n"
  numOfInt :: "int \<Rightarrow> 'n"
  numAdd :: "'n \<Rightarrow> 'n \<Rightarrow> 'n"
  numIsFinite :: "'n \<Rightarrow> bool"
  jsonStringify :: "'n json \<Rightarrow> string"
  jsonParse :: "string \<Rightarrow> 'n json option"
  functionToString :: "string \<Rightarrow> string"

text \<open>\<^verbatim>\<open>safeStringify\<close>: \<open>None\<close> is \<^verbatim>\<open>undefined\<close>.\<close>

fun safeStringify :: "'n runtime \<Rightarrow> 'n json option \<Rightarrow> string" where
  "safeStringify R None = ''undefined''"
| "safeStringify R (Some (JStr s)) = s"
| "safeStringify R (Some (JNum n)) = numToString R n"
| "safeStringify R (Some (JBool b)) = (if b then ''true'' else ''false'')"
| "safeStringify R (Some JNull) = ''null''"
| "safeStringify R (Some v) = jsonStringify R v"

text \<open>The envelope \<^verbatim>\<open>Result<T>\<close>.\<close>

datatype 'a Result =
    Error string
  | Ok 'a

definition parseJsonValue :: "'n runtime \<Rightarrow> string \<Rightarrow> 'n json Result" where
  "parseJsonValue R text =
     (case jsonParse R text of
        Some v \<Rightarrow> Ok v
      | None \<Rightarrow> Error ''body is not valid JSON'')"

subsection \<open>The JSON body model\<close>

text \<open>
  \<^verbatim>\<open>getPrimitiveDeep\<close>, dotted branch: the loop over the parts returns \<^verbatim>\<open>undefined\<close> early
  (\<open>None\<close>) or ends with the value reached.
\<close>

fun walkParts :: "'n json jsval \<Rightarrow> string list \<Rightarrow> 'n json jsval option" where
  "walkParts current [] = Some current"
| "walkParts current (part # parts) =
     (if isRecord current \<and> jsIn part current then walkParts (jsGet current part) parts
      else None)"

text \<open>
  The other branch: a stack, popped at the end and pushed at the end, so the head of the
  list is the top and the children of a node are visited last first.
\<close>

function getPrimitiveDfs :: "string \<Rightarrow> 'n json list \<Rightarrow> 'n json option" where
  "getPrimitiveDfs key [] = None"
| "getPrimitiveDfs key (JArr items # stack) = getPrimitiveDfs key (rev items @ stack)"
| "getPrimitiveDfs key (JObj ps # stack) =
     (case (if hasProperty ps key then primitiveOf (getProperty ps key) else None) of
        Some v \<Rightarrow> Some v
      | None \<Rightarrow> getPrimitiveDfs key (rev (map snd ps) @ stack))"
| "getPrimitiveDfs key (JNull # stack) = getPrimitiveDfs key stack"
| "getPrimitiveDfs key (JBool b # stack) = getPrimitiveDfs key stack"
| "getPrimitiveDfs key (JNum n # stack) = getPrimitiveDfs key stack"
| "getPrimitiveDfs key (JStr s # stack) = getPrimitiveDfs key stack"
  by pat_completeness auto


lemma size_list_rev: "size_list f (rev xs) = size_list f xs"
  by (induction xs) simp_all

lemma size_list_values_le:
  "size_list (size \<circ> snd) ps \<le> size_list (size_prod (\<lambda>x. 0) size) (ps :: (string \<times> 'n json) list)"
  by (induction ps) auto

termination getPrimitiveDfs
  apply (relation "measure (\<lambda>(key, stack). size_list size stack)")
  apply (auto simp: size_list_rev le_imp_less_Suc size_list_values_le less_Suc_eq_le le_SucI)
  done

definition getPrimitiveDeep :: "'n json \<Rightarrow> string \<Rightarrow> 'n json option" where
  "getPrimitiveDeep v key =
     (if CHR ''.'' \<in> set key then
        (case walkParts (Val v) (splitOn CHR ''.'' key) of
           None \<Rightarrow> None
         | Some current \<Rightarrow> primitiveOf current)
      else getPrimitiveDfs key [v])"

text \<open>\<^verbatim>\<open>containsKeyDeep\<close>: the same stack; \<^verbatim>\<open>key in current\<close> is true for inherited names too.\<close>

function containsKeyDfs :: "string \<Rightarrow> 'n json list \<Rightarrow> bool" where
  "containsKeyDfs key [] = False"
| "containsKeyDfs key (JArr items # stack) = containsKeyDfs key (rev items @ stack)"
| "containsKeyDfs key (JObj ps # stack) =
     (if hasProperty ps key then True
      else containsKeyDfs key (rev (map snd ps) @ stack))"
| "containsKeyDfs key (JNull # stack) = containsKeyDfs key stack"
| "containsKeyDfs key (JBool b # stack) = containsKeyDfs key stack"
| "containsKeyDfs key (JNum n # stack) = containsKeyDfs key stack"
| "containsKeyDfs key (JStr s # stack) = containsKeyDfs key stack"
  by pat_completeness auto
termination
  apply (relation "measure (\<lambda>(key, stack). size_list size stack)")
  apply (auto simp: size_list_rev le_imp_less_Suc size_list_values_le less_Suc_eq_le le_SucI)
  done

definition containsKeyDeep :: "'n json \<Rightarrow> string \<Rightarrow> bool" where
  "containsKeyDeep v key = containsKeyDfs key [v]"

text \<open>
  \<^verbatim>\<open>setDeep\<close>. The source clones the object and walks down with a pointer \<^verbatim>\<open>current\<close>,
  giving each part but the last a fresh object (\<^verbatim>\<open>{}\<close>, or a spread of the record found
  there) and continuing inside it; the last part receives the value. The model builds the
  same tree from the inside out. Where a part is \<^verbatim>\<open>__proto__\<close> and not an own property the
  fresh object becomes the prototype and the rest of the walk happens inside it: the tree
  of own properties is left as it was, which is what \<open>assignProperty\<close> returns. The result
  stands for what \<^verbatim>\<open>JSON.stringify\<close> reads of the object; a read of the object in memory
  through that new prototype is not modelled (\<^verbatim>\<open>buildMutations\<close> only serialises the result).
\<close>

fun setDeepParts :: "'n JSONObject \<Rightarrow> string list \<Rightarrow> 'n json \<Rightarrow> 'n JSONObject" where
  "setDeepParts current [] v = current"
| "setDeepParts current [lastPart] v = assignProperty current lastPart v"
| "setDeepParts current (part # parts) v =
     (let next = getProperty current part;
          fresh = (if \<not> hasProperty current part \<or> \<not> isRecord next then [] else spread next)
      in assignProperty current part (JObj (setDeepParts fresh parts v)))"

definition setDeep :: "'n JSONObject \<Rightarrow> string \<Rightarrow> 'n json \<Rightarrow> 'n JSONObject" where
  "setDeep obj path v = setDeepParts obj (splitOn CHR ''.'' path) v"

subsection \<open>The mutation generator\<close>

record valueModes =
  booleanTrue :: bool
  stringAdmin :: bool
  numberOne :: bool
  numberPlusOne :: bool
  numberMinusOne :: bool

text \<open>The variant \<^verbatim>\<open>FollowUp\<close> of \<^verbatim>\<open>verification\<close>: url, method, body, delayMs.\<close>

datatype verification =
    Disabled
  | FollowUp string string string int

record ScanConfig =
  maxMutations :: int
  includeBuiltInCandidates :: bool
  candidateFields :: "string list"
  customValues :: "string list"
  mutateExistingFields :: bool
  valueModes :: valueModes
  confirmPersistence :: bool
  persistenceDelayMs :: int
  verification :: verification

datatype 'n ValueCandidate =
    Fixed "'n json option"
  | NumericDelta int

record 'n Mutation =
  m_field :: string
  m_value :: "'n json"
  m_bodyText :: string

definition builtInCandidates :: "string list" where
  "builtInCandidates =
     [''isAdmin'', ''admin'', ''is_staff'', ''isStaff'', ''isSuperuser'', ''role'', ''roles'',
      ''permissions'', ''tier'', ''plan'']"

text \<open>The loop that trims and removes duplicates; \<^verbatim>\<open>seen\<close> holds what \<^verbatim>\<open>candidates\<close> holds.\<close>

fun collectCandidates :: "string list \<Rightarrow> string list \<Rightarrow> string list" where
  "collectCandidates [] candidates = candidates"
| "collectCandidates (raw # rest) candidates =
     (let trimmed = trim raw in
      if length trimmed = 0 then collectCandidates rest candidates
      else if trimmed \<in> set candidates then collectCandidates rest candidates
      else collectCandidates rest (candidates @ [trimmed]))"

text \<open>The regular expression \<^verbatim>\<open>/^-?\d+(\.\d+)?$/\<close>.\<close>

definition matchesNumber :: "string \<Rightarrow> bool" where
  "matchesNumber s =
     (let unsigned = (if startsWith s ''-'' then drop 1 s else s);
          whole = takeWhile isDigit unsigned;
          rest = dropWhile isDigit unsigned
      in whole \<noteq> [] \<and>
         (rest = [] \<or> (startsWith rest ''.'' \<and> drop 1 rest \<noteq> [] \<and> list_all isDigit (drop 1 rest))))"

text \<open>The value of one trimmed, non-empty entry of \<^verbatim>\<open>customValues\<close>; \<open>None\<close> is \<^verbatim>\<open>undefined\<close>.\<close>

definition customValue :: "'n runtime \<Rightarrow> string \<Rightarrow> 'n json option" where
  "customValue R trimmed =
     (if trimmed = ''true'' then Some (JBool True)
      else if trimmed = ''false'' then Some (JBool False)
      else if trimmed = ''null'' then None
      else if matchesNumber trimmed then
        (let num = numOfString R trimmed in
         if numIsFinite R num then Some (JNum num) else Some (JStr trimmed))
      else if (startsWith trimmed ''{'' \<and> endsWith trimmed ''}'') \<or>
              (startsWith trimmed ''['' \<and> endsWith trimmed '']'') then
        (case parseJsonValue R trimmed of
           Ok parsed \<Rightarrow> Some parsed
         | Error e \<Rightarrow> Some (JStr trimmed))
      else Some (JStr trimmed))"

fun customCandidates :: "'n runtime \<Rightarrow> string list \<Rightarrow> 'n ValueCandidate list" where
  "customCandidates R [] = []"
| "customCandidates R (custom # rest) =
     (let trimmed = trim custom in
      if length trimmed = 0 then customCandidates R rest
      else Fixed (customValue R trimmed) # customCandidates R rest)"

definition valueCandidates :: "'n runtime \<Rightarrow> ScanConfig \<Rightarrow> 'n ValueCandidate list" where
  "valueCandidates R config =
     (let modes = valueModes config;
          values = (if booleanTrue modes then [JBool True] else []) @
                   (if stringAdmin modes then [JStr ''admin''] else []) @
                   (if numberOne modes then [JNum (numOfInt R 1)] else []);
          cands = map (\<lambda>v. Fixed (Some v)) values @
                  (if numberPlusOne modes then [NumericDelta 1] else []) @
                  (if numberMinusOne modes then [NumericDelta (- 1)] else []) @
                  customCandidates R (customValues config)
      in if length cands = 0 then [Fixed (Some (JBool True))] else cands)"

text \<open>The value a candidate stands for at a field whose current value is \<open>existingValue\<close>.\<close>

fun resolveCandidate ::
  "'n runtime \<Rightarrow> 'n json jsval \<Rightarrow> 'n ValueCandidate \<Rightarrow> 'n json option" where
  "resolveCandidate R existingValue (Fixed v) = v"
| "resolveCandidate R (Val (JNum n)) (NumericDelta delta) =
     Some (JNum (numAdd R n (numOfInt R delta)))"
| "resolveCandidate R (Val (JStr s)) (NumericDelta delta) =
     (if s \<noteq> [] \<and> list_all isDigit s
      then Some (JStr (numToString R (numAdd R (numOfString R s) (numOfInt R delta))))
      else None)"
| "resolveCandidate R existingValue (NumericDelta delta) = None"

text \<open>\<^verbatim>\<open>typeof v\<close> is \<^verbatim>\<open>"string"\<close>, \<^verbatim>\<open>"number"\<close> or \<^verbatim>\<open>"boolean"\<close> (so not \<^verbatim>\<open>null\<close>).\<close>

fun typeofPrimitive :: "'n json jsval \<Rightarrow> bool" where
  "typeofPrimitive (Val (JStr s)) = True"
| "typeofPrimitive (Val (JNum n)) = True"
| "typeofPrimitive (Val (JBool b)) = True"
| "typeofPrimitive v = False"

fun jsonOf :: "'n json jsval \<Rightarrow> 'n json option" where
  "jsonOf (Val v) = Some v"
| "jsonOf v = None"

fun notFiniteNumber :: "'n runtime \<Rightarrow> 'n json \<Rightarrow> bool" where
  "notFiniteNumber R (JNum n) = (\<not> numIsFinite R n)"
| "notFiniteNumber R v = False"

text \<open>The inner loop, over the value candidates of one field.\<close>

fun valueLoop ::
  "'n runtime \<Rightarrow> 'n JSONObject \<Rightarrow> int \<Rightarrow> ScanConfig \<Rightarrow> string \<Rightarrow> 'n json jsval \<Rightarrow>
   'n ValueCandidate list \<Rightarrow> 'n Mutation list \<Rightarrow> 'n Mutation list" where
  "valueLoop R original maxM config field existingValue [] mutations = mutations"
| "valueLoop R original maxM config field existingValue (candidate # rest) mutations =
     (if int (length mutations) \<ge> maxM then mutations
      else
        (case resolveCandidate R existingValue candidate of
           None \<Rightarrow> valueLoop R original maxM config field existingValue rest mutations
         | Some v \<Rightarrow>
             if notFiniteNumber R v
             then valueLoop R original maxM config field existingValue rest mutations
             else if mutateExistingFields config \<and> typeofPrimitive existingValue \<and>
                     safeStringify R (jsonOf existingValue) = safeStringify R (Some v)
             then valueLoop R original maxM config field existingValue rest mutations
             else valueLoop R original maxM config field existingValue rest
                    (mutations @
                       [\<lparr>m_field = field, m_value = v,
                         m_bodyText = jsonStringify R (JObj (setDeep original field v))\<rparr>])))"

text \<open>The outer loop, over the candidate fields.\<close>

fun fieldLoop ::
  "'n runtime \<Rightarrow> 'n JSONObject \<Rightarrow> int \<Rightarrow> ScanConfig \<Rightarrow> 'n ValueCandidate list \<Rightarrow>
   string list \<Rightarrow> 'n Mutation list \<Rightarrow> 'n Mutation list" where
  "fieldLoop R original maxM config cands [] mutations = mutations"
| "fieldLoop R original maxM config cands (field # rest) mutations =
     (if int (length mutations) \<ge> maxM then mutations
      else if \<not> mutateExistingFields config \<and> hasProperty original field
      then fieldLoop R original maxM config cands rest mutations
      else fieldLoop R original maxM config cands rest
             (valueLoop R original maxM config field (getProperty original field) cands mutations))"

definition buildMutations ::
  "'n runtime \<Rightarrow> 'n JSONObject \<Rightarrow> int \<Rightarrow> ScanConfig \<Rightarrow> 'n Mutation list" where
  "buildMutations R original maxM config =
     (let rawCandidates =
            (if includeBuiltInCandidates config then builtInCandidates else []) @
            candidateFields config;
          candidates = collectCandidates rawCandidates []
      in fieldLoop R original maxM config (valueCandidates R config) candidates [])"


subsection \<open>Requests, responses and request specifications\<close>

text \<open>
  The host's objects, as far as the code reads them: a stored request with its id (as
  \<^verbatim>\<open>String(getId())\<close>), method, URL, insertion-ordered headers with their lists of values and
  body text; a response with its status code and body text. \<^verbatim>\<open>getHeader\<close> is a lookup by
  the name as given.
\<close>

record Request =
  req_id :: string
  req_method :: string
  req_url :: string
  req_headers :: "(string \<times> string list) list"
  req_body :: "string option"

record Response =
  res_code :: int
  res_body :: "string option"

definition getHeader :: "Request \<Rightarrow> string \<Rightarrow> string list option" where
  "getHeader request name = map_of (req_headers request) name"

text \<open>
  A \<^verbatim>\<open>RequestSpec\<close> is what the code puts into it: \<^verbatim>\<open>new RequestSpec(url)\<close> has no header
  and an empty body; \<^verbatim>\<open>setHeader\<close> replaces the values the name had; \<^verbatim>\<open>toSpec\<close> copies
  the request.
\<close>

record RequestSpec =
  sp_url :: string
  sp_method :: string
  sp_headers :: "(string \<times> string) list"
  sp_body :: string

definition newRequestSpec :: "string \<Rightarrow> RequestSpec" where
  "newRequestSpec url = \<lparr>sp_url = url, sp_method = ''GET'', sp_headers = [], sp_body = []\<rparr>"

definition setMethod :: "string \<Rightarrow> RequestSpec \<Rightarrow> RequestSpec" where
  "setMethod m spec = spec\<lparr>sp_method := m\<rparr>"

definition setHeader :: "string \<Rightarrow> string \<Rightarrow> RequestSpec \<Rightarrow> RequestSpec" where
  "setHeader name v spec =
     spec\<lparr>sp_headers := filter (\<lambda>h. fst h \<noteq> name) (sp_headers spec) @ [(name, v)]\<rparr>"

definition setBody :: "string \<Rightarrow> RequestSpec \<Rightarrow> RequestSpec" where
  "setBody body spec = spec\<lparr>sp_body := body\<rparr>"

definition toSpec :: "Request \<Rightarrow> RequestSpec" where
  "toSpec request =
     \<lparr>sp_url = req_url request, sp_method = req_method request,
      sp_headers = concat (map (\<lambda>(name, vs). map (Pair name) vs) (req_headers request)),
      sp_body = (case req_body request of None \<Rightarrow> [] | Some b \<Rightarrow> b)\<rparr>"

definition PluginMarkerHeader :: string where
  "PluginMarkerHeader = ''X-Mass-Assignment-Radar''"

text \<open>\<^verbatim>\<open>applyHeaders\<close>, the helper inside \<^verbatim>\<open>runScan\<close>, and the loop at the end of \<^verbatim>\<open>parseRawRequestSpec\<close>.\<close>

definition applyHeaders :: "RequestSpec \<Rightarrow> (string \<times> string) list \<Rightarrow> RequestSpec" where
  "applyHeaders spec headers = foldl (\<lambda>sp (name, v). setHeader name v sp) spec headers"

definition headersToPairs :: "(string \<times> string list) list \<Rightarrow> (string \<times> string) list" where
  "headersToPairs headers =
     concat (map (\<lambda>(name, vs).
        let lower = toLowerCase name in
        if lower = ''content-length'' \<or> lower = ''transfer-encoding'' \<or> lower = ''host''
        then [] else map (Pair name) vs) headers)"

subsection \<open>Parsing a raw request\<close>

record SaveRawRequestInput =
  in_host :: string
  in_port :: int
  in_isTls :: bool
  in_raw :: string

text \<open>\<^verbatim>\<open>raw.replace(/\r\n/g, "\n")\<close>.\<close>

fun normalizeNewlines :: "string \<Rightarrow> string" where
  "normalizeNewlines [] = []"
| "normalizeNewlines [c] = [c]"
| "normalizeNewlines (c # d # rest) =
     (if c = CHR 0x0D \<and> d = CHR 0x0A then CHR 0x0A # normalizeNewlines rest
      else c # normalizeNewlines (d # rest))"

text \<open>
  The split at the first \<^verbatim>\<open>"\n\n"\<close>: the header block, and the body when there is a blank
  line (\<open>None\<close> for \<^verbatim>\<open>splitIdx === -1\<close>).
\<close>

fun splitAtBlankLine :: "string \<Rightarrow> string \<times> string option" where
  "splitAtBlankLine [] = ([], None)"
| "splitAtBlankLine [c] = ([c], None)"
| "splitAtBlankLine (c # d # rest) =
     (if c = CHR 0x0A \<and> d = CHR 0x0A then ([], Some rest)
      else (case splitAtBlankLine (d # rest) of (block, body) \<Rightarrow> (c # block, body)))"

text \<open>\<^verbatim>\<open>s.split(/\s+/)\<close>.\<close>

lemma dropWhile_shorter: "xs \<noteq> [] \<Longrightarrow> P (hd xs) \<Longrightarrow> length (dropWhile P xs) < length xs"
  by (cases xs) (simp_all add: le_imp_less_Suc length_dropWhile_le)

function splitWhiteSpace :: "string \<Rightarrow> string list" where
  "splitWhiteSpace s =
     (let word = takeWhile (\<lambda>c. \<not> isWhiteSpace c) s;
          rest = dropWhile (\<lambda>c. \<not> isWhiteSpace c) s
      in if rest = [] then [word] else word # splitWhiteSpace (dropWhile isWhiteSpace rest))"
  by pat_completeness auto
termination
proof (relation "measure length")
  fix s word rest :: string
  assume r: "rest = dropWhile (\<lambda>c. \<not> isWhiteSpace c) s" and ne: "rest \<noteq> []"
  from ne r have "isWhiteSpace (hd rest)"
    using hd_dropWhile[of "\<lambda>c. \<not> isWhiteSpace c" s] by auto
  with ne have "length (dropWhile isWhiteSpace rest) < length rest" by (rule dropWhile_shorter)
  moreover have "length rest \<le> length s" using r by (simp add: length_dropWhile_le)
  ultimately show "(dropWhile isWhiteSpace rest, s) \<in> measure length" by simp
qed simp

declare splitWhiteSpace.simps [simp del]

text \<open>\<^verbatim>\<open>line.indexOf(":")\<close>: \<open>None\<close> for \<^verbatim>\<open>-1\<close>.\<close>

definition indexOfChar :: "char \<Rightarrow> string \<Rightarrow> nat option" where
  "indexOfChar c s = (if c \<in> set s then Some (length (takeWhile (\<lambda>x. x \<noteq> c) s)) else None)"

text \<open>
  The state of the header loop: \<^verbatim>\<open>currentName\<close>, \<^verbatim>\<open>currentValue\<close> and \<^verbatim>\<open>headerPairs\<close>;
  \<^verbatim>\<open>flush\<close> moves the current header into the pairs unless its name is
  \<^verbatim>\<open>content-length\<close> or \<^verbatim>\<open>transfer-encoding\<close> in lower case.
\<close>

type_synonym headerState = "string option \<times> string \<times> (string \<times> string) list"

fun flush :: "headerState \<Rightarrow> headerState" where
  "flush (None, currentValue, headerPairs) = (None, currentValue, headerPairs)"
| "flush (Some currentName, currentValue, headerPairs) =
     (let nameLower = toLowerCase currentName in
      (None, [],
       if nameLower \<noteq> ''content-length'' \<and> nameLower \<noteq> ''transfer-encoding''
       then headerPairs @ [(currentName, currentValue)] else headerPairs))"

fun headerLine :: "headerState \<Rightarrow> string \<Rightarrow> headerState" where
  "headerLine (currentName, currentValue, headerPairs) line =
     (if startsWith line '' '' \<or> startsWith line [CHR 0x09] then
        (case currentName of
           None \<Rightarrow> (currentName, currentValue, headerPairs)
         | Some name \<Rightarrow> (currentName, trim (currentValue @ '' '' @ trim line), headerPairs))
      else
        (let flushed = flush (currentName, currentValue, headerPairs) in
         case indexOfChar CHR '':'' line of
           None \<Rightarrow> flushed
         | Some idx \<Rightarrow>
             if idx = 0 then flushed
             else
               (let name = trim (take idx line);
                    v = trim (drop (idx + 1) line)
                in if length name = 0 then flushed
                   else (Some name, v, snd (snd flushed)))))"

definition parseRawRequestSpec :: "SaveRawRequestInput \<Rightarrow> RequestSpec Result" where
  "parseRawRequestSpec input =
     (let host = trim (in_host input) in
      if length host = 0 then Error ''host is required''
      else if in_port input < 1 \<or> in_port input > 65535 then Error ''port is invalid''
      else
        (let rawNormalized = normalizeNewlines (in_raw input);
             (headerBlock, body) = splitAtBlankLine rawNormalized;
             bodyText = (case body of None \<Rightarrow> [] | Some b \<Rightarrow> b);
             headerLines =
               filter (\<lambda>line. length line > 0) (map trimEnd (splitOn CHR 0x0A headerBlock))
         in case headerLines of
              [] \<Rightarrow> Error ''request is empty''
            | requestLine # headerRest \<Rightarrow>
                (case splitWhiteSpace requestLine of
                   methodRaw # targetRaw # others \<Rightarrow>
                     (let scheme = (if in_isTls input then ''https'' else ''http'');
                          base = scheme @ ''://'' @ host @ '':'' @ showInt (in_port input);
                          url = (if startsWith targetRaw ''http://'' \<or> startsWith targetRaw ''https://''
                                 then targetRaw
                                 else if startsWith targetRaw ''/'' then base @ targetRaw
                                 else base @ ''/'' @ targetRaw);
                          headerPairs = snd (snd (flush (foldl headerLine (None, [], []) headerRest)))
                      in Ok (setBody bodyText
                               (applyHeaders (setMethod (trim methodRaw) (newRequestSpec url))
                                  headerPairs)))
                 | parts \<Rightarrow> Error ''invalid request line'')))"

subsection \<open>The host and the cancellation flag\<close>

record SavedRequest =
  sv_request :: Request
  sv_response :: "Response option"

record Sent =
  st_request :: Request
  st_response :: "Response option"

record Issue =
  i_title :: string
  i_description :: string
  i_reporter :: string
  i_dedupeKey :: string
  i_request :: Request

text \<open>
  The host, over a state \<open>'h\<close> of its own. \<^verbatim>\<open>sdk.requests.get\<close> returns the stored request
  or \<^verbatim>\<open>undefined\<close>; \<^verbatim>\<open>sdk.requests.send\<close> returns what was sent, or throws (\<open>None\<close>);
  \<^verbatim>\<open>sdk.findings.create\<close> returns, or throws an error with a text (\<open>Some\<close> of it). Each is
  awaited, and while the scan waits the host may run the handler \<^verbatim>\<open>stopScan\<close>: the
  boolean each function returns says whether it did. \<^verbatim>\<open>sdk.console.log\<close> is left out.
\<close>

record 'h sdk =
  requestsGet :: "'h \<Rightarrow> string \<Rightarrow> SavedRequest option \<times> 'h \<times> bool"
  requestsSend :: "'h \<Rightarrow> RequestSpec \<Rightarrow> Sent option \<times> 'h \<times> bool"
  findingsCreate :: "'h \<Rightarrow> Issue \<Rightarrow> string option \<times> 'h \<times> bool"

text \<open>
  The state a handler runs in: the host's, the module variable \<^verbatim>\<open>shouldStopScan\<close>, and
  two records kept for the statements only, of every \<^verbatim>\<open>send\<close> with its outcome and of every
  issue handed to \<^verbatim>\<open>findings.create\<close>.
\<close>

record 'h world =
  hostState :: 'h
  shouldStopScan :: bool
  exchanges :: "(RequestSpec \<times> Sent option) list"
  issues :: "Issue list"

definition stopScan :: "'h world \<Rightarrow> 'h world" where
  "stopScan w = w\<lparr>shouldStopScan := True\<rparr>"

definition awaitGet :: "'h sdk \<Rightarrow> string \<Rightarrow> 'h world \<Rightarrow> SavedRequest option \<times> 'h world" where
  "awaitGet sdk ident w =
     (case requestsGet sdk (hostState w) ident of
        (saved, h, stopped) \<Rightarrow>
          (saved, w\<lparr>hostState := h, shouldStopScan := shouldStopScan w \<or> stopped\<rparr>))"

definition awaitSend :: "'h sdk \<Rightarrow> RequestSpec \<Rightarrow> 'h world \<Rightarrow> Sent option \<times> 'h world" where
  "awaitSend sdk spec w =
     (case requestsSend sdk (hostState w) spec of
        (sent, h, stopped) \<Rightarrow>
          (sent, w\<lparr>hostState := h, shouldStopScan := shouldStopScan w \<or> stopped,
                   exchanges := exchanges w @ [(spec, sent)]\<rparr>))"

definition awaitCreate :: "'h sdk \<Rightarrow> Issue \<Rightarrow> 'h world \<Rightarrow> string option \<times> 'h world" where
  "awaitCreate sdk issue w =
     (case findingsCreate sdk (hostState w) issue of
        (thrown, h, stopped) \<Rightarrow>
          (thrown, w\<lparr>hostState := h, shouldStopScan := shouldStopScan w \<or> stopped,
                     issues := issues w @ [issue]\<rparr>))"

text \<open>
  The promise of an \<^verbatim>\<open>async\<close> function: resolved with a value, or rejected by an exception
  nothing caught.
\<close>

datatype 'a Promise =
    Resolved 'a
  | Rejected

subsection \<open>Findings\<close>

datatype FindingKind =
    Reflected
  | Persisted
  | CodeChanged
  | StateChanged
  | NonJsonResponse
  | NoResponse

fun kindName :: "FindingKind \<Rightarrow> string" where
  "kindName Reflected = ''Reflected''"
| "kindName Persisted = ''Persisted''"
| "kindName CodeChanged = ''CodeChanged''"
| "kindName StateChanged = ''StateChanged''"
| "kindName NonJsonResponse = ''NonJsonResponse''"
| "kindName NoResponse = ''NoResponse''"

record ScanFinding =
  f_id :: string
  f_requestId :: string
  f_field :: string
  f_value :: string
  f_kind :: FindingKind
  f_baselineCode :: "int option"
  f_mutatedCode :: "int option"
  f_persistedCode :: "int option"
  f_mutatedRequestId :: "string option"
  f_persistedRequestId :: "string option"
  f_verifyBaselineRequestId :: "string option"
  f_verifyRequestId :: "string option"
  f_baselineBodySnippet :: "string option"
  f_mutatedBodySnippet :: "string option"
  f_persistedBodySnippet :: "string option"
  f_message :: string

record ScanResult =
  sr_baselineRequestId :: string
  sr_findings :: "ScanFinding list"

record ScanTarget =
  t_requestId :: string

text \<open>The argument of \<^verbatim>\<open>makeFinding\<close>.\<close>

record 'n FindingParams =
  p_requestId :: string
  p_field :: string
  p_value :: "'n json"
  p_kind :: FindingKind
  p_baselineResponse :: "Response option"
  p_mutatedResponse :: "Response option"
  p_persistedResponse :: "Response option"
  p_mutatedRequestId :: "string option"
  p_persistedRequestId :: "string option"
  p_verifyBaselineRequestId :: "string option"
  p_verifyRequestId :: "string option"
  p_baselineBodySnippet :: "string option"
  p_mutatedBodySnippet :: "string option"
  p_persistedBodySnippet :: "string option"
  p_details :: string

text \<open>The separator of the message is an em dash between two spaces, here in UTF-8.\<close>

definition makeFinding :: "'n runtime \<Rightarrow> 'n FindingParams \<Rightarrow> ScanFinding" where
  "makeFinding R params =
     \<lparr>f_id = p_requestId params @ '':'' @ kindName (p_kind params) @ '':'' @ p_field params @
               '':'' @ safeStringify R (Some (p_value params)),
      f_requestId = p_requestId params,
      f_field = p_field params,
      f_value = safeStringify R (Some (p_value params)),
      f_kind = p_kind params,
      f_baselineCode = map_option res_code (p_baselineResponse params),
      f_mutatedCode = map_option res_code (p_mutatedResponse params),
      f_persistedCode = map_option res_code (p_persistedResponse params),
      f_mutatedRequestId = p_mutatedRequestId params,
      f_persistedRequestId = p_persistedRequestId params,
      f_verifyBaselineRequestId = p_verifyBaselineRequestId params,
      f_verifyRequestId = p_verifyRequestId params,
      f_baselineBodySnippet = p_baselineBodySnippet params,
      f_mutatedBodySnippet = p_mutatedBodySnippet params,
      f_persistedBodySnippet = p_persistedBodySnippet params,
      f_message = p_field params @ ''='' @ safeStringify R (Some (p_value params)) @
                  [CHR '' '', CHR 0xE2, CHR 0x80, CHR 0x94, CHR '' ''] @ p_details params\<rparr>"

subsection \<open>Helpers of the scan\<close>

definition responseToText :: "Response option \<Rightarrow> string option" where
  "responseToText response = (case response of None \<Rightarrow> None | Some r \<Rightarrow> res_body r)"

text \<open>\<^verbatim>\<open>getHeader(name)?.[0]\<close>.\<close>

definition firstHeader :: "Request \<Rightarrow> string \<Rightarrow> string option" where
  "firstHeader request name =
     (case getHeader request name of
        None \<Rightarrow> None
      | Some [] \<Rightarrow> None
      | Some (v # vs) \<Rightarrow> Some v)"

definition getContentType :: "Request \<Rightarrow> string option" where
  "getContentType request =
     (case firstHeader request ''Content-Type'' of
        Some v \<Rightarrow> Some v
      | None \<Rightarrow> firstHeader request ''content-type'')"

definition isJsonRequest :: "'n runtime \<Rightarrow> Request \<Rightarrow> bool" where
  "isJsonRequest R request =
     (let contentType = getContentType request in
      if contentType \<noteq> None \<and>
         includesText (toLowerCase (case contentType of Some c \<Rightarrow> c | None \<Rightarrow> [])) ''application/json''
      then True
      else
        (case req_body request of
           None \<Rightarrow> False
         | Some bodyText \<Rightarrow>
             if length bodyText > 1000000 then False
             else
               (let trimmed = trimStart bodyText in
                if \<not> startsWith trimmed ''{'' then False
                else (case parseJsonValue R trimmed of
                        Ok (JObj ps) \<Rightarrow> True
                      | other \<Rightarrow> False))))"

text \<open>
  \<^verbatim>\<open>resolveUrl\<close>. The first expression, \<^verbatim>\<open>/^https?:\/\/\S+$/i\<close>, is a scheme in any case
  followed by one or more characters none of which is white space; the second,
  \<^verbatim>\<open>/^(https?):\/\/([^/?#]+)(?:[/?#]|$)/i\<close>, captures the scheme as written and the longest
  run of characters after \<^verbatim>\<open>://\<close> that has none of \<^verbatim>\<open>/ ? #\<close>, which must not be empty.
\<close>

definition schemeLength :: "string \<Rightarrow> nat option" where
  "schemeLength s =
     (if toLowerCase (take 8 s) = ''https://'' then Some 5
      else if toLowerCase (take 7 s) = ''http://'' then Some 4
      else None)"

definition isFullUrl :: "string \<Rightarrow> bool" where
  "isFullUrl s =
     (case schemeLength s of
        None \<Rightarrow> False
      | Some n \<Rightarrow> drop (n + 3) s \<noteq> [] \<and> list_all (\<lambda>c. \<not> isWhiteSpace c) (drop (n + 3) s))"

definition resolveUrl :: "string \<Rightarrow> string \<Rightarrow> string Result" where
  "resolveUrl input baseUrl =
     (let trimmed = trim input in
      if length trimmed = 0 then Error ''verification url is required''
      else if isFullUrl trimmed then Ok trimmed
      else
        (case schemeLength baseUrl of
           None \<Rightarrow> Error ''baseline url is invalid''
         | Some n \<Rightarrow>
             (let scheme = take n baseUrl;
                  hostPort = takeWhile (\<lambda>c. c \<notin> set ''/?#'') (drop (n + 3) baseUrl)
              in if hostPort = [] then Error ''baseline url is invalid''
                 else
                   (let origin = scheme @ ''://'' @ hostPort;
                        path = (if startsWith trimmed ''/'' then trimmed else ''/'' @ trimmed)
                    in Ok (origin @ path)))))"

text \<open>
  \<^verbatim>\<open>getAllPrimitives\<close>. The result is an object filled by assignments and by
  \<^verbatim>\<open>Object.assign\<close>, which assigns the own properties of its second argument in order.
\<close>

definition objectAssign :: "(string \<times> 'v) list \<Rightarrow> (string \<times> 'v) list \<Rightarrow> (string \<times> 'v) list" where
  "objectAssign result source = foldl (\<lambda>r (k, v). assignProperty r k v) result source"

fun getAllPrimitives :: "'n runtime \<Rightarrow> 'n json \<Rightarrow> string \<Rightarrow> (string \<times> string) list"
  and allPrimitivesItems ::
    "'n runtime \<Rightarrow> 'n json list \<Rightarrow> nat \<Rightarrow> string \<Rightarrow> (string \<times> string) list \<Rightarrow> (string \<times> string) list"
  and allPrimitivesEntries ::
    "'n runtime \<Rightarrow> (string \<times> 'n json) list \<Rightarrow> string \<Rightarrow> (string \<times> string) list \<Rightarrow> (string \<times> string) list"
where
  "getAllPrimitives R (JArr items) prefix = allPrimitivesItems R items 0 prefix []"
| "getAllPrimitives R (JObj ps) prefix = allPrimitivesEntries R ps prefix []"
| "getAllPrimitives R JNull prefix = []"
| "getAllPrimitives R (JBool b) prefix = []"
| "getAllPrimitives R (JNum n) prefix = []"
| "getAllPrimitives R (JStr s) prefix = []"
| "allPrimitivesItems R [] i prefix result = result"
| "allPrimitivesItems R (item # items) i prefix result =
     allPrimitivesItems R items (Suc i) prefix
       (objectAssign result (getAllPrimitives R item (prefix @ ''['' @ showNat i @ '']'')))"
| "allPrimitivesEntries R [] prefix result = result"
| "allPrimitivesEntries R ((key, val) # rest) prefix result =
     (let path = (if prefix \<noteq> [] then prefix @ ''.'' @ key else key) in
      allPrimitivesEntries R rest prefix
        (case primitiveOf (Val val) of
           Some prim \<Rightarrow> assignProperty result path (safeStringify R (Some prim))
         | None \<Rightarrow> objectAssign result (getAllPrimitives R val path)))"

definition noisyKeys :: "string list" where
  "noisyKeys =
     [''id'', ''createdAt'', ''updatedAt'', ''timestamp'', ''time'', ''iat'', ''exp'', ''nonce'',
      ''imageUrl'']"

definition isNoisy :: "string \<Rightarrow> bool" where
  "isNoisy path = list_ex (\<lambda>k. path = k \<or> endsWith path (''.'' @ k)) noisyKeys"

text \<open>The text \<^verbatim>\<open>${baselineVal}\<close> of what \<^verbatim>\<open>baselinePrimitives[path]\<close> returned.\<close>

fun baselineText :: "'n runtime \<Rightarrow> string \<Rightarrow> string jsval \<Rightarrow> string" where
  "baselineText R path (Val s) = s"
| "baselineText R path ObjectPrototype = ''[object Object]''"
| "baselineText R path BuiltinFunction = functionToString R path"
| "baselineText R path Undefined = ''undefined''"

text \<open>The list \<^verbatim>\<open>changed\<close> of the follow-up diff.\<close>

definition changedPaths :: "'n runtime \<Rightarrow> 'n JSONObject \<Rightarrow> 'n JSONObject \<Rightarrow> string list" where
  "changedPaths R verifyBaselineJson parsed =
     (let baselinePrimitives = getAllPrimitives R (JObj verifyBaselineJson) [];
          mutatedPrimitives = getAllPrimitives R (JObj parsed) []
      in concat (map (\<lambda>(path, val).
           let baselineVal = getProperty baselinePrimitives path in
           if baselineVal \<noteq> Undefined \<and> baselineVal \<noteq> Val val \<and> \<not> isNoisy path
           then [path @ '': '' @ baselineText R path baselineVal @ '' -> '' @ val]
           else []) mutatedPrimitives))"

subsection \<open>The scan orchestrator\<close>

text \<open>What \<^verbatim>\<open>runScan\<close> has fixed when the loop over the mutations starts.\<close>

record 'n ScanContext =
  c_config :: ScanConfig
  c_request :: Request
  c_originalBodyText :: string
  c_baselineRequestId :: string
  c_baselineResponse :: "Response option"
  c_baselineBodySnippet :: "string option"
  c_baselineJson :: "'n json Result option"
  c_baseHeaderPairs :: "(string \<times> string) list"
  c_verifyBaselineResponse :: "Response option"
  c_verifyBaselineJson :: "'n JSONObject option"
  c_verifyBaselineRequestId :: "string option"
  c_verifyUrlResolved :: "string option"
  c_verifyBaselineBodySnippet :: "string option"

definition makeSpec :: "Request \<Rightarrow> string \<Rightarrow> string \<Rightarrow> RequestSpec" where
  "makeSpec request bodyText marker =
     setHeader PluginMarkerHeader marker (setBody bodyText (toSpec request))"

text \<open>
  The specification of a verification request, built the same way before the loop (marker
  \<^verbatim>\<open>verify-baseline\<close>) and in it (\<^verbatim>\<open>verify-mutated\<close>); \<^verbatim>\<open>method || "GET"\<close> and \<^verbatim>\<open>body || ""\<close>.
\<close>

definition makeVerifySpec ::
  "string \<Rightarrow> string \<Rightarrow> string \<Rightarrow> (string \<times> string) list \<Rightarrow> string \<Rightarrow> RequestSpec" where
  "makeVerifySpec verifyUrlResolved verifyMethod verifyBody baseHeaderPairs marker =
     setBody verifyBody
       (setHeader PluginMarkerHeader marker
          (applyHeaders
             (setMethod (if verifyMethod = [] then ''GET'' else verifyMethod)
                (newRequestSpec verifyUrlResolved))
             baseHeaderPairs))"

definition baselineHadKey :: "'n ScanContext \<Rightarrow> string \<Rightarrow> bool" where
  "baselineHadKey ctx field =
     (case c_baselineJson ctx of
        Some (Ok v) \<Rightarrow> containsKeyDeep v field
      | other \<Rightarrow> False)"

text \<open>The finding \<^verbatim>\<open>CodeChanged\<close> of one mutation, if any.\<close>

definition codeChanged ::
  "'n runtime \<Rightarrow> 'n ScanContext \<Rightarrow> 'n Mutation \<Rightarrow> Response \<Rightarrow> string \<Rightarrow> ScanFinding list" where
  "codeChanged R ctx mutation mutatedResponse mutatedRequestId =
     (case map_option res_code (c_baselineResponse ctx) of
        None \<Rightarrow> []
      | Some baselineCode \<Rightarrow>
          if res_code mutatedResponse \<noteq> baselineCode then
            [makeFinding R
               \<lparr>p_requestId = c_baselineRequestId ctx, p_field = m_field mutation,
                p_value = m_value mutation, p_kind = CodeChanged,
                p_baselineResponse = c_baselineResponse ctx,
                p_mutatedResponse = Some mutatedResponse, p_persistedResponse = None,
                p_mutatedRequestId = Some mutatedRequestId, p_persistedRequestId = None,
                p_verifyBaselineRequestId = None, p_verifyRequestId = None,
                p_baselineBodySnippet = c_baselineBodySnippet ctx,
                p_mutatedBodySnippet = None, p_persistedBodySnippet = None,
                p_details = ''status code changed '' @ showInt baselineCode @ '' -> '' @
                            showInt (res_code mutatedResponse)\<rparr>]
          else [])"

text \<open>
  The follow-up state diff of one mutation: the finding \<^verbatim>\<open>StateChanged\<close>, if any, for the
  response of a fresh verification request against \<^verbatim>\<open>verifyBaselineJson\<close>. The busy wait
  \<^verbatim>\<open>sleep\<close> changes nothing here.
\<close>

definition stateChanged ::
  "'n runtime \<Rightarrow> 'n ScanContext \<Rightarrow> 'n Mutation \<Rightarrow> string \<Rightarrow> 'n JSONObject \<Rightarrow> string \<Rightarrow> Sent \<Rightarrow>
   ScanFinding list" where
  "stateChanged R ctx mutation mutatedRequestId verifyBaselineJson verifyBaselineRequestId verifySent =
     (case st_response verifySent of
        None \<Rightarrow> []
      | Some verifyResponse \<Rightarrow>
          (case responseToText (Some verifyResponse) of
             None \<Rightarrow> []
           | Some verifyText \<Rightarrow>
               (case parseJsonValue R verifyText of
                  Ok (JObj parsed) \<Rightarrow>
                    (let changed = changedPaths R verifyBaselineJson parsed in
                     if length changed > 0 then
                       [makeFinding R
                          \<lparr>p_requestId = c_baselineRequestId ctx, p_field = m_field mutation,
                           p_value = m_value mutation, p_kind = StateChanged,
                           p_baselineResponse = c_verifyBaselineResponse ctx,
                           p_mutatedResponse = Some verifyResponse, p_persistedResponse = None,
                           p_mutatedRequestId = Some mutatedRequestId,
                           p_persistedRequestId = None,
                           p_verifyBaselineRequestId = Some verifyBaselineRequestId,
                           p_verifyRequestId = Some (req_id (st_request verifySent)),
                           p_baselineBodySnippet = c_verifyBaselineBodySnippet ctx,
                           p_mutatedBodySnippet = truncateText (Some verifyText) 4000,
                           p_persistedBodySnippet = None,
                           p_details = ''state changed via follow-up ('' @
                                       joinWith '', '' changed @ '')''\<rparr>]
                     else [])
                | other \<Rightarrow> [])))"

definition followUp ::
  "'h sdk \<Rightarrow> 'n runtime \<Rightarrow> 'n ScanContext \<Rightarrow> 'n Mutation \<Rightarrow> string \<Rightarrow> 'h world \<Rightarrow>
   ScanFinding list \<times> 'h world" where
  "followUp sdk R ctx mutation mutatedRequestId w =
     (case (verification (c_config ctx), c_verifyBaselineJson ctx, c_verifyUrlResolved ctx,
            c_verifyBaselineRequestId ctx) of
        (FollowUp url verifyMethod verifyBody delayMs, Some verifyBaselineJson,
         Some verifyUrlResolved, Some verifyBaselineRequestId) \<Rightarrow>
          (case awaitSend sdk
                  (makeVerifySpec verifyUrlResolved verifyMethod verifyBody (c_baseHeaderPairs ctx)
                     ''verify-mutated'') w of
             (None, w1) \<Rightarrow> ([], w1)
           | (Some verifySent, w1) \<Rightarrow>
               (stateChanged R ctx mutation mutatedRequestId verifyBaselineJson
                  verifyBaselineRequestId verifySent, w1))
      | other \<Rightarrow> ([], w))"

text \<open>
  The persistence probe, run after a finding \<^verbatim>\<open>Reflected\<close> when \<^verbatim>\<open>confirmPersistence\<close> is
  set: the original body is sent again, and the finding \<^verbatim>\<open>Persisted\<close> is made when the
  response has the injected value at the field.
\<close>

definition persistenceProbe ::
  "'h sdk \<Rightarrow> 'n runtime \<Rightarrow> 'n ScanContext \<Rightarrow> 'n Mutation \<Rightarrow> Response \<Rightarrow> string \<Rightarrow>
   string option \<Rightarrow> 'h world \<Rightarrow> ScanFinding list \<times> 'h world" where
  "persistenceProbe sdk R ctx mutation mutatedResponse mutatedRequestId mutatedBodySnippet w =
     (case awaitSend sdk (makeSpec (c_request ctx) (c_originalBodyText ctx) ''persisted'') w of
        (None, w1) \<Rightarrow> ([], w1)
      | (Some persistedSent, w1) \<Rightarrow>
          (let persistedResponse = st_response persistedSent;
               persistedRequestId = req_id (st_request persistedSent);
               persistedText = responseToText persistedResponse;
               persistedBodySnippet = truncateText persistedText 4000
           in case persistedText of
                None \<Rightarrow> ([], w1)
              | Some text \<Rightarrow>
                  (case parseJsonValue R text of
                     Error e \<Rightarrow> ([], w1)
                   | Ok persistedJson \<Rightarrow>
                       (let persistedTop = getPrimitiveDeep persistedJson (m_field mutation) in
                        if persistedTop \<noteq> None \<and>
                           safeStringify R persistedTop = safeStringify R (Some (m_value mutation))
                        then
                          ([makeFinding R
                              \<lparr>p_requestId = c_baselineRequestId ctx,
                               p_field = m_field mutation, p_value = m_value mutation,
                               p_kind = Persisted,
                               p_baselineResponse = c_baselineResponse ctx,
                               p_mutatedResponse = Some mutatedResponse,
                               p_persistedResponse = persistedResponse,
                               p_mutatedRequestId = Some mutatedRequestId,
                               p_persistedRequestId = Some persistedRequestId,
                               p_verifyBaselineRequestId = None, p_verifyRequestId = None,
                               p_baselineBodySnippet = c_baselineBodySnippet ctx,
                               p_mutatedBodySnippet = mutatedBodySnippet,
                               p_persistedBodySnippet = persistedBodySnippet,
                               p_details = ''injected value present after baseline replay''\<rparr>],
                           w1)
                        else ([], w1)))))"

text \<open>The body diff of one mutation: \<^verbatim>\<open>NonJsonResponse\<close>, or \<^verbatim>\<open>Reflected\<close> and the probe.\<close>

definition bodyDiff ::
  "'h sdk \<Rightarrow> 'n runtime \<Rightarrow> 'n ScanContext \<Rightarrow> 'n Mutation \<Rightarrow> Response \<Rightarrow> string \<Rightarrow> 'h world \<Rightarrow>
   ScanFinding list \<times> 'h world" where
  "bodyDiff sdk R ctx mutation mutatedResponse mutatedRequestId w =
     (let mutatedText = responseToText (Some mutatedResponse);
          mutatedBodySnippet = truncateText mutatedText 4000
      in case mutatedText of
           None \<Rightarrow> ([], w)
         | Some text \<Rightarrow>
             (case parseJsonValue R text of
                Error e \<Rightarrow>
                  ([makeFinding R
                      \<lparr>p_requestId = c_baselineRequestId ctx, p_field = m_field mutation,
                       p_value = m_value mutation, p_kind = NonJsonResponse,
                       p_baselineResponse = c_baselineResponse ctx,
                       p_mutatedResponse = Some mutatedResponse, p_persistedResponse = None,
                       p_mutatedRequestId = Some mutatedRequestId, p_persistedRequestId = None,
                       p_verifyBaselineRequestId = None, p_verifyRequestId = None,
                       p_baselineBodySnippet = c_baselineBodySnippet ctx,
                       p_mutatedBodySnippet = mutatedBodySnippet, p_persistedBodySnippet = None,
                       p_details = ''response is not JSON''\<rparr>], w)
              | Ok mutatedJson \<Rightarrow>
                  (let mutatedTop = getPrimitiveDeep mutatedJson (m_field mutation);
                       baselineTop = (case c_baselineJson ctx of
                                        Some (Ok v) \<Rightarrow> getPrimitiveDeep v (m_field mutation)
                                      | other \<Rightarrow> None)
                   in if mutatedTop \<noteq> None \<and>
                         safeStringify R mutatedTop = safeStringify R (Some (m_value mutation))
                      then
                        (let isNewKey = (\<not> baselineHadKey ctx (m_field mutation));
                             valueChanged =
                               (baselineTop = None \<or>
                                safeStringify R baselineTop \<noteq>
                                  safeStringify R (Some (m_value mutation)));
                             reflected =
                               makeFinding R
                                 \<lparr>p_requestId = c_baselineRequestId ctx,
                                  p_field = m_field mutation, p_value = m_value mutation,
                                  p_kind = Reflected,
                                  p_baselineResponse = c_baselineResponse ctx,
                                  p_mutatedResponse = Some mutatedResponse,
                                  p_persistedResponse = None,
                                  p_mutatedRequestId = Some mutatedRequestId,
                                  p_persistedRequestId = None,
                                  p_verifyBaselineRequestId = None, p_verifyRequestId = None,
                                  p_baselineBodySnippet = c_baselineBodySnippet ctx,
                                  p_mutatedBodySnippet = mutatedBodySnippet,
                                  p_persistedBodySnippet = None,
                                  p_details =
                                    (if isNewKey then ''response contains injected key''
                                     else if valueChanged then ''response contains overridden value''
                                     else ''response echoed injected value'')\<rparr>
                         in if confirmPersistence (c_config ctx) then
                              (case persistenceProbe sdk R ctx mutation mutatedResponse
                                      mutatedRequestId mutatedBodySnippet w of
                                 (persisted, w1) \<Rightarrow> (reflected # persisted, w1))
                            else ([reflected], w))
                      else ([], w))))"

text \<open>
  One turn of the loop, after the test of the flag. \<open>None\<close> is the \<^verbatim>\<open>TypeError\<close> of
  \<^verbatim>\<open>mutatedResponse.getCode()\<close> when what was sent has no response.
\<close>

definition scanMutation ::
  "'h sdk \<Rightarrow> 'n runtime \<Rightarrow> 'n ScanContext \<Rightarrow> 'n Mutation \<Rightarrow> 'h world \<Rightarrow>
   ScanFinding list option \<times> 'h world" where
  "scanMutation sdk R ctx mutation w =
     (case awaitSend sdk (makeSpec (c_request ctx) (m_bodyText mutation) ''mutated'') w of
        (None, w1) \<Rightarrow>
          (Some [makeFinding R
                   \<lparr>p_requestId = c_baselineRequestId ctx, p_field = m_field mutation,
                    p_value = m_value mutation, p_kind = NoResponse,
                    p_baselineResponse = c_baselineResponse ctx,
                    p_mutatedResponse = None, p_persistedResponse = None,
                    p_mutatedRequestId = None, p_persistedRequestId = None,
                    p_verifyBaselineRequestId = None, p_verifyRequestId = None,
                    p_baselineBodySnippet = c_baselineBodySnippet ctx,
                    p_mutatedBodySnippet = None, p_persistedBodySnippet = None,
                    p_details = ''failed to send request''\<rparr>], w1)
      | (Some sent, w1) \<Rightarrow>
          (case st_response sent of
             None \<Rightarrow> (None, w1)
           | Some mutatedResponse \<Rightarrow>
               (let mutatedRequestId = req_id (st_request sent);
                    coded = codeChanged R ctx mutation mutatedResponse mutatedRequestId
                in case followUp sdk R ctx mutation mutatedRequestId w1 of
                     (changed, w2) \<Rightarrow>
                       (case bodyDiff sdk R ctx mutation mutatedResponse mutatedRequestId w2 of
                          (diffed, w3) \<Rightarrow> (Some (coded @ changed @ diffed), w3)))))"

fun scanLoop ::
  "'h sdk \<Rightarrow> 'n runtime \<Rightarrow> 'n ScanContext \<Rightarrow> 'n Mutation list \<Rightarrow> ScanFinding list \<Rightarrow> 'h world \<Rightarrow>
   ScanFinding list option \<times> 'h world" where
  "scanLoop sdk R ctx [] found w = (Some found, w)"
| "scanLoop sdk R ctx (mutation # rest) found w =
     (if shouldStopScan w then (Some found, w)
      else
        (case scanMutation sdk R ctx mutation w of
           (None, w1) \<Rightarrow> (None, w1)
         | (Some emitted, w1) \<Rightarrow> scanLoop sdk R ctx rest (found @ emitted) w1))"

text \<open>
  The baseline response: the stored one, or that of a baseline copy sent now. \<open>None\<close> is
  the failure to send it.
\<close>

definition ensureBaseline ::
  "'h sdk \<Rightarrow> SavedRequest \<Rightarrow> string \<Rightarrow> 'h world \<Rightarrow> Response option option \<times> 'h world" where
  "ensureBaseline sdk saved originalBodyText w =
     (case sv_response saved of
        Some r \<Rightarrow> (Some (Some r), w)
      | None \<Rightarrow>
          (case awaitSend sdk (makeSpec (sv_request saved) originalBodyText ''baseline'') w of
             (None, w1) \<Rightarrow> (None, w1)
           | (Some sent, w1) \<Rightarrow> (Some (st_response sent), w1)))"

text \<open>The five variables the verification baseline sets.\<close>

record 'n VerifyBaseline =
  vb_response :: "Response option"
  vb_json :: "'n JSONObject option"
  vb_requestId :: "string option"
  vb_urlResolved :: "string option"
  vb_bodySnippet :: "string option"

definition verifyBaseline ::
  "'h sdk \<Rightarrow> 'n runtime \<Rightarrow> ScanConfig \<Rightarrow> string \<Rightarrow> (string \<times> string) list \<Rightarrow> 'h world \<Rightarrow>
   'n VerifyBaseline Result \<times> 'h world" where
  "verifyBaseline sdk R config baseUrl baseHeaderPairs w =
     (case verification config of
        Disabled \<Rightarrow>
          (Ok \<lparr>vb_response = None, vb_json = None, vb_requestId = None, vb_urlResolved = None,
               vb_bodySnippet = None\<rparr>, w)
      | FollowUp url verifyMethod verifyBody delayMs \<Rightarrow>
          (case resolveUrl url baseUrl of
             Error e \<Rightarrow> (Error e, w)
           | Ok verifyUrlResolved \<Rightarrow>
               (case awaitSend sdk
                       (makeVerifySpec verifyUrlResolved verifyMethod verifyBody baseHeaderPairs
                          ''verify-baseline'') w of
                  (None, w1) \<Rightarrow> (Error ''failed to send verification request'', w1)
                | (Some verifySent, w1) \<Rightarrow>
                    (case st_response verifySent of
                       None \<Rightarrow> (Error ''verification request has no response'', w1)
                     | Some verifyBaselineResponse \<Rightarrow>
                         (let verifyText = responseToText (Some verifyBaselineResponse) in
                          (Ok \<lparr>vb_response = Some verifyBaselineResponse,
                               vb_json =
                                 (case verifyText of
                                    None \<Rightarrow> None
                                  | Some text \<Rightarrow>
                                      (case parseJsonValue R text of
                                         Ok (JObj parsed) \<Rightarrow> Some parsed
                                       | other \<Rightarrow> None)),
                               vb_requestId = Some (req_id (st_request verifySent)),
                               vb_urlResolved = Some verifyUrlResolved,
                               vb_bodySnippet = truncateText verifyText 4000\<rparr>, w1))))))"

text \<open>The variables of \<^verbatim>\<open>runScan\<close> that the loop reads, once the baselines are known.\<close>

definition scanContext ::
  "'n runtime \<Rightarrow> ScanConfig \<Rightarrow> string \<Rightarrow> Request \<Rightarrow> string \<Rightarrow> Response option \<Rightarrow>
   'n VerifyBaseline \<Rightarrow> 'n ScanContext" where
  "scanContext R config trimmedRequestId request bodyText baselineResponse vb =
     \<lparr>c_config = config, c_request = request,
      c_originalBodyText = bodyText,
      c_baselineRequestId = trimmedRequestId,
      c_baselineResponse = baselineResponse,
      c_baselineBodySnippet = truncateText (responseToText baselineResponse) 4000,
      c_baselineJson = map_option (parseJsonValue R) (responseToText baselineResponse),
      c_baseHeaderPairs = headersToPairs (req_headers request),
      c_verifyBaselineResponse = vb_response vb,
      c_verifyBaselineJson = vb_json vb,
      c_verifyBaselineRequestId = vb_requestId vb,
      c_verifyUrlResolved = vb_urlResolved vb,
      c_verifyBaselineBodySnippet = vb_bodySnippet vb\<rparr>"

text \<open>\<^verbatim>\<open>runScan\<close> from the lookup of the target on, for a configuration that passed the checks.\<close>

definition scanRequest ::
  "'h sdk \<Rightarrow> 'n runtime \<Rightarrow> string \<Rightarrow> ScanConfig \<Rightarrow> 'h world \<Rightarrow>
   ScanResult Result Promise \<times> 'h world" where
  "scanRequest sdk R trimmedRequestId config w =
     (case awaitGet sdk trimmedRequestId w of
        (None, w1) \<Rightarrow>
          (Resolved (Error (''request '' @ trimmedRequestId @ '' not found'')), w1)
      | (Some saved, w1) \<Rightarrow>
          (let request = sv_request saved;
               baseUrl = req_url request;
               baseHeaderPairs = headersToPairs (req_headers request)
           in if \<not> isJsonRequest R request
              then (Resolved (Error ''request Content-Type is not application/json''), w1)
              else
                (case req_body request of
                   None \<Rightarrow> (Resolved (Error ''request body is empty''), w1)
                 | Some bodyText \<Rightarrow>
                     (case parseJsonValue R bodyText of
                        Error e \<Rightarrow> (Resolved (Error e), w1)
                      | Ok (JObj originalJson) \<Rightarrow>
                          (case ensureBaseline sdk saved bodyText w1 of
                             (None, w2) \<Rightarrow>
                               (Resolved (Error ''failed to send baseline request''), w2)
                           | (Some baselineResponse, w2) \<Rightarrow>
                               (case verifyBaseline sdk R config baseUrl baseHeaderPairs w2 of
                                  (Error e, w3) \<Rightarrow> (Resolved (Error e), w3)
                                | (Ok vb, w3) \<Rightarrow>
                                    (let mutations =
                                           buildMutations R originalJson (maxMutations config) config
                                     in if length mutations = 0 then
                                          (Resolved (Error
                                             ''no mutations generated (all candidate fields already exist in request body)''),
                                           w3)
                                        else
                                          (case scanLoop sdk R
                                                  (scanContext R config trimmedRequestId request
                                                     bodyText baselineResponse vb)
                                                  mutations [] w3 of
                                             (None, w4) \<Rightarrow> (Rejected, w4)
                                           | (Some found, w4) \<Rightarrow>
                                               (Resolved (Ok \<lparr>sr_baselineRequestId = trimmedRequestId,
                                                              sr_findings = found\<rparr>), w4)))))
                      | Ok other \<Rightarrow>
                          (Resolved (Error ''request JSON body must be an object''), w1)))))"

text \<open>The check of \<^verbatim>\<open>verification.delayMs\<close>, made in the variant \<^verbatim>\<open>FollowUp\<close> only.\<close>

fun verificationDelayError :: "verification \<Rightarrow> string option" where
  "verificationDelayError Disabled = None"
| "verificationDelayError (FollowUp url verifyMethod verifyBody delayMs) =
     (if delayMs < 0 then Some ''verification.delayMs must be >= 0''
      else if delayMs > 10000 then Some ''verification.delayMs must be <= 10000''
      else None)"

definition runScan ::
  "'h sdk \<Rightarrow> 'n runtime \<Rightarrow> ScanTarget \<Rightarrow> ScanConfig \<Rightarrow> 'h world \<Rightarrow>
   ScanResult Result Promise \<times> 'h world" where
  "runScan sdk R target config w0 =
     (let w = w0\<lparr>shouldStopScan := False\<rparr> in
      if maxMutations config < 1 then (Resolved (Error ''maxMutations must be >= 1''), w)
      else if maxMutations config > 256 then (Resolved (Error ''maxMutations must be <= 256''), w)
      else if persistenceDelayMs config < 0
      then (Resolved (Error ''persistenceDelayMs must be >= 0''), w)
      else if persistenceDelayMs config > 10000
      then (Resolved (Error ''persistenceDelayMs must be <= 10000''), w)
      else if length (candidateFields config) > 5000
      then (Resolved (Error ''candidateFields is too large''), w)
      else
        (case verificationDelayError (verification config) of
           Some e \<Rightarrow> (Resolved (Error e), w)
         | None \<Rightarrow>
             (let trimmedRequestId = trim (t_requestId target) in
              if length trimmedRequestId = 0
              then (Resolved (Error ''requestId is required''), w)
              else scanRequest sdk R trimmedRequestId config w)))"

subsection \<open>Creating findings\<close>

record FindingInput =
  fi_field :: string
  fi_value :: string
  fi_kind :: FindingKind
  fi_message :: string
  fi_mutatedRequestId :: "string option"
  fi_persistedRequestId :: "string option"
  fi_verifyRequestId :: "string option"

record CreateFindingsInput =
  cf_requestId :: string
  cf_findings :: "FindingInput list"

record CreateFindingsResult =
  created :: nat

text \<open>The request attached to the issue of one finding: \<^verbatim>\<open>requestToAttach\<close> after the chain.\<close>

definition requestToAttach ::
  "'h sdk \<Rightarrow> Request \<Rightarrow> FindingInput \<Rightarrow> 'h world \<Rightarrow> Request \<times> 'h world" where
  "requestToAttach sdk savedRequest finding w =
     (case (if fi_kind finding = StateChanged then fi_verifyRequestId finding else None) of
        Some verifyRequestId \<Rightarrow>
          (case awaitGet sdk verifyRequestId w of
             (Some verifiedSaved, w1) \<Rightarrow> (sv_request verifiedSaved, w1)
           | (None, w1) \<Rightarrow> (savedRequest, w1))
      | None \<Rightarrow>
          (case (if fi_kind finding = Persisted then fi_persistedRequestId finding else None) of
             Some persistedRequestId \<Rightarrow>
               (case awaitGet sdk persistedRequestId w of
                  (Some persistedSaved, w1) \<Rightarrow> (sv_request persistedSaved, w1)
                | (None, w1) \<Rightarrow> (savedRequest, w1))
           | None \<Rightarrow>
               (case fi_mutatedRequestId finding of
                  Some mutatedRequestId \<Rightarrow>
                    (case awaitGet sdk mutatedRequestId w of
                       (Some mutatedSaved, w1) \<Rightarrow> (sv_request mutatedSaved, w1)
                     | (None, w1) \<Rightarrow> (savedRequest, w1))
                | None \<Rightarrow> (savedRequest, w))))"

definition issueOf :: "string \<Rightarrow> FindingInput \<Rightarrow> Request \<Rightarrow> Issue" where
  "issueOf trimmedRequestId finding request =
     \<lparr>i_title = ''Mass Assignment Radar: '' @ kindName (fi_kind finding) @ '' '' @ fi_field finding,
      i_description =
        joinWith [CHR 0x0A]
          ([fi_message finding, ''Baseline ID: '' @ trimmedRequestId, ''Value: '' @ fi_value finding] @
           (case fi_mutatedRequestId finding of
              None \<Rightarrow> []
            | Some i \<Rightarrow> [''Mutated ID: '' @ i]) @
           (case fi_persistedRequestId finding of
              None \<Rightarrow> []
            | Some i \<Rightarrow> [''Persisted ID: '' @ i])),
      i_reporter = ''Mass Assignment Radar'',
      i_dedupeKey = trimmedRequestId @ '':'' @ kindName (fi_kind finding) @ '':'' @ fi_field finding,
      i_request = request\<rparr>"

text \<open>The loop inside \<^verbatim>\<open>try\<close>: \<open>Inl\<close> is the text of the error caught.\<close>

fun createLoop ::
  "'h sdk \<Rightarrow> string \<Rightarrow> Request \<Rightarrow> FindingInput list \<Rightarrow> nat \<Rightarrow> 'h world \<Rightarrow> (string + nat) \<times> 'h world" where
  "createLoop sdk trimmedRequestId savedRequest [] n w = (Inr n, w)"
| "createLoop sdk trimmedRequestId savedRequest (finding # rest) n w =
     (case requestToAttach sdk savedRequest finding w of
        (request, w1) \<Rightarrow>
          (case awaitCreate sdk (issueOf trimmedRequestId finding request) w1 of
             (Some thrown, w2) \<Rightarrow> (Inl thrown, w2)
           | (None, w2) \<Rightarrow> createLoop sdk trimmedRequestId savedRequest rest (n + 1) w2))"

definition createFindings ::
  "'h sdk \<Rightarrow> CreateFindingsInput \<Rightarrow> 'h world \<Rightarrow> CreateFindingsResult Result \<times> 'h world" where
  "createFindings sdk input w =
     (let trimmedRequestId = trim (cf_requestId input) in
      if length trimmedRequestId = 0 then (Error ''requestId is required'', w)
      else if length (cf_findings input) = 0 then (Error ''findings is empty'', w)
      else if length (cf_findings input) > 200 then (Error ''too many findings'', w)
      else
        (case awaitGet sdk trimmedRequestId w of
           (None, w1) \<Rightarrow> (Error (''request '' @ trimmedRequestId @ '' not found''), w1)
         | (Some saved, w1) \<Rightarrow>
             (case createLoop sdk trimmedRequestId (sv_request saved) (cf_findings input) 0 w1 of
                (Inl thrown, w2) \<Rightarrow> (Error (''failed to create findings: '' @ thrown), w2)
              | (Inr n, w2) \<Rightarrow> (Ok \<lparr>created = n\<rparr>, w2))))"

section \<open>An example runtime, an example host and example inputs\<close>

text \<open>
  The instance at which the theorems below are run on concrete inputs: numbers are
  integers; \<^verbatim>\<open>JSON.stringify\<close> prints compact JSON; \<^verbatim>\<open>JSON.parse\<close> reads back the documents
  of a fixed list and rejects every other text.
\<close>

definition exampleQuote :: "string \<Rightarrow> string" where
  "exampleQuote s =
     [CHR 0x22] @
     concat (map (\<lambda>c. if c = CHR 0x22 \<or> c = CHR 0x5C then [CHR 0x5C, c] else [c]) s) @
     [CHR 0x22]"

primrec exampleStringify :: "int json \<Rightarrow> string" where
  "exampleStringify JNull = ''null''"
| "exampleStringify (JBool b) = (if b then ''true'' else ''false'')"
| "exampleStringify (JNum n) = showInt n"
| "exampleStringify (JStr s) = exampleQuote s"
| "exampleStringify (JArr items) = ''['' @ joinWith '','' (map exampleStringify items) @ '']''"
| "exampleStringify (JObj ps) =
     ''{'' @
     joinWith '',''
       (map (\<lambda>(k, s). exampleQuote k @ '':'' @ s) (map (map_prod id exampleStringify) ps)) @
     ''}''"

definition docFree :: "int json" where "docFree = JObj [(''plan'', JStr ''free'')]"

definition docPro :: "int json" where "docPro = JObj [(''plan'', JStr ''pro'')]"

definition docRole :: "int json" where "docRole = JObj [(''plan'', JStr ''free''), (''role'', JStr ''admin'')]"

definition exampleDocuments :: "int json list" where
  "exampleDocuments =
     [JObj [], JArr [],
      JObj [(''role'', JObj [])],
      JObj [(''role'', JStr ''admin'')],
      docFree, docPro, docRole]"

definition exampleParse :: "string \<Rightarrow> int json option" where
  "exampleParse s = find (\<lambda>d. exampleStringify d = s) exampleDocuments"

definition exampleNumber :: "string \<Rightarrow> int" where
  "exampleNumber s =
     (let digits = takeWhile isDigit (if startsWith s ''-'' then drop 1 s else s);
          n = foldl (\<lambda>a c. 10 * a + int (length (takeWhile (\<lambda>d. d \<noteq> c) ''0123456789''))) 0 digits
      in if startsWith s ''-'' then - n else n)"

definition exampleRuntime :: "int runtime" where
  "exampleRuntime =
     \<lparr>numToString = showInt, numOfString = exampleNumber, numOfInt = id, numAdd = (+),
      numIsFinite = (\<lambda>n. True), jsonStringify = exampleStringify, jsonParse = exampleParse,
      functionToString = (\<lambda>name. ''function '' @ name @ ''() { [native code] }'')\<rparr>"

definition noModes :: valueModes where
  "noModes =
     \<lparr>booleanTrue = False, stringAdmin = False, numberOne = False, numberPlusOne = False,
      numberMinusOne = False\<rparr>"

text \<open>Candidate fields \<^verbatim>\<open>plan\<close> and \<^verbatim>\<open>role\<close>, the value \<^verbatim>\<open>"admin"\<close>, existing fields left alone.\<close>

definition exampleConfig :: ScanConfig where
  "exampleConfig =
     \<lparr>maxMutations = 16, includeBuiltInCandidates = False,
      candidateFields = [''plan'', ''role''], customValues = [],
      mutateExistingFields = False, valueModes = noModes\<lparr>stringAdmin := True\<rparr>,
      confirmPersistence = False, persistenceDelayMs = 0, verification = Disabled\<rparr>"

text \<open>The only value source is the custom value \<^verbatim>\<open>null\<close>.\<close>

definition nullConfig :: ScanConfig where
  "nullConfig = exampleConfig\<lparr>customValues := [''null''], valueModes := noModes\<rparr>"

text \<open>The only value source is the custom value \<^verbatim>\<open>{}\<close>; the only field is \<^verbatim>\<open>role\<close>.\<close>

definition objectConfig :: ScanConfig where
  "objectConfig =
     exampleConfig\<lparr>candidateFields := [''role''], customValues := [''{}''], valueModes := noModes\<rparr>"

text \<open>
  The example host: a store of saved requests, and a script of the outcomes of the sends
  to come, each with the signal that \<^verbatim>\<open>stopScan\<close> ran meanwhile. A send takes the next
  outcome, and throws when the script is over; \<^verbatim>\<open>findings.create\<close> never throws.
\<close>

record ExampleHost =
  stored :: "(string \<times> SavedRequest) list"
  script :: "(Sent option \<times> bool) list"

definition exampleSdk :: "ExampleHost sdk" where
  "exampleSdk =
     \<lparr>requestsGet = (\<lambda>h ident. (map_of (stored h) ident, h, False)),
      requestsSend = (\<lambda>h spec. case script h of
                                  [] \<Rightarrow> (None, h, False)
                                | (sent, stopped) # rest \<Rightarrow> (sent, h\<lparr>script := rest\<rparr>, stopped)),
      findingsCreate = (\<lambda>h issue. (None, h, False))\<rparr>"

definition exampleRequest :: "string \<Rightarrow> int json \<Rightarrow> Request" where
  "exampleRequest ident body =
     \<lparr>req_id = ident, req_method = ''POST'', req_url = ''http://lab:3001/users/me'',
      req_headers = [(''Content-Type'', [''application/json''])],
      req_body = Some (exampleStringify body)\<rparr>"

definition exampleSaved :: "string \<Rightarrow> int json \<Rightarrow> int json \<Rightarrow> SavedRequest" where
  "exampleSaved ident body answer =
     \<lparr>sv_request = exampleRequest ident body,
      sv_response = Some \<lparr>res_code = 200, res_body = Some (exampleStringify answer)\<rparr>\<rparr>"

definition exampleSent :: "string \<Rightarrow> int json \<Rightarrow> Sent option \<times> bool" where
  "exampleSent ident answer =
     (Some \<lparr>st_request = exampleRequest ident (JObj []),
            st_response = Some \<lparr>res_code = 200, res_body = Some (exampleStringify answer)\<rparr>\<rparr>, False)"

definition exampleWorld :: "(string \<times> SavedRequest) list \<Rightarrow> (Sent option \<times> bool) list \<Rightarrow> ExampleHost world" where
  "exampleWorld st sc =
     \<lparr>hostState = \<lparr>stored = st, script = sc\<rparr>, shouldStopScan = False, exchanges = [], issues = []\<rparr>"

definition exampleTarget :: ScanTarget where "exampleTarget = \<lparr>t_requestId = '' 1 ''\<rparr>"

text \<open>
  The stored baseline: request \<^verbatim>\<open>1\<close> with the body \<^verbatim>\<open>{"plan":"free"}\<close> and a response that
  echoes it.
\<close>

definition baselineStore :: "(string \<times> SavedRequest) list" where
  "baselineStore = [(''1'', exampleSaved ''1'' docFree docFree)]"

text \<open>
  The persistence scenario: the field \<^verbatim>\<open>role\<close>, \<^verbatim>\<open>confirmPersistence\<close> set; the mutated
  request is answered with the injected field, and so is the replay of the baseline.
\<close>

definition persistConfig :: ScanConfig where
  "persistConfig = exampleConfig\<lparr>candidateFields := [''role''], confirmPersistence := True\<rparr>"

definition persistWorld :: "ExampleHost world" where
  "persistWorld = exampleWorld baselineStore [exampleSent ''2'' docRole, exampleSent ''3'' docRole]"



text \<open>
  A finding of kind \<^verbatim>\<open>StateChanged\<close> whose verify request \<^verbatim>\<open>9\<close> is not in the store, while
  its mutated request \<^verbatim>\<open>5\<close> is.
\<close>

definition staleFinding :: FindingInput where
  "staleFinding =
     \<lparr>fi_field = ''plan'', fi_value = ''pro'', fi_kind = StateChanged, fi_message = ''plan=pro'',
      fi_mutatedRequestId = Some ''5'', fi_persistedRequestId = None,
      fi_verifyRequestId = Some ''9''\<rparr>"

definition findingsStore :: "(string \<times> SavedRequest) list" where
  "findingsStore =
     [(''1'', exampleSaved ''1'' (JObj []) (JObj [])),
      (''5'', exampleSaved ''5'' (JObj [(''role'', JStr ''admin'')]) (JObj []))]"

text \<open>
  A raw request with a \<^verbatim>\<open>Content-Length\<close> header, a folded header and a
  \<^verbatim>\<open>Transfer-Encoding\<close> header in capitals.
\<close>

definition exampleRaw :: string where
  "exampleRaw =
     ''POST /users HTTP/1.1'' @ [CHR 0x0D, CHR 0x0A] @
     ''Host: lab'' @ [CHR 0x0D, CHR 0x0A] @
     ''Content-Length: 2'' @ [CHR 0x0D, CHR 0x0A] @
     ''X-Trace: 1'' @ [CHR 0x0D, CHR 0x0A] @
     ''  folded'' @ [CHR 0x0D, CHR 0x0A] @
     ''TRANSFER-ENCODING : chunked'' @ [CHR 0x0D, CHR 0x0A, CHR 0x0D, CHR 0x0A] @
     ''{}''"

definition exampleRawInput :: SaveRawRequestInput where
  "exampleRawInput = \<lparr>in_host = '' lab '', in_port = 3001, in_isTls = False, in_raw = exampleRaw\<rparr>"

section \<open>Notions used in the statements\<close>

text \<open>The value found by following own properties only.\<close>

fun ownPath :: "'n json \<Rightarrow> string list \<Rightarrow> 'n json option" where
  "ownPath v [] = Some v"
| "ownPath (JObj ps) (k # ks) = (case map_of ps k of None \<Rightarrow> None | Some x \<Rightarrow> ownPath x ks)"
| "ownPath v (k # ks) = None"

fun isPrimitive :: "'n json \<Rightarrow> bool" where
  "isPrimitive (JArr items) = False"
| "isPrimitive (JObj ps) = False"
| "isPrimitive v = True"

text \<open>
  What it is for \<^verbatim>\<open>JSON.parse\<close> to read back what \<^verbatim>\<open>JSON.stringify\<close> wrote of a tree (a law
  of the runtime, not of the repository). \<open>sameJson R v w\<close>: the tree \<open>w\<close> has what was
  written of \<open>v\<close>, that is the same string, boolean or \<^verbatim>\<open>null\<close>, for a finite number a
  number that prints the same, \<^verbatim>\<open>null\<close> for a number that is not finite, the items of an array
  one by one, and under each key of an object what was written under it.
  \<open>readsBack R v\<close>: the text written of \<open>v\<close> parses, to such a tree.
\<close>

primrec sameJson :: "'n runtime \<Rightarrow> 'n json \<Rightarrow> 'n json \<Rightarrow> bool" where
  "sameJson R JNull w = (w = JNull)"
| "sameJson R (JBool b) w = (w = JBool b)"
| "sameJson R (JNum n) w =
     (if numIsFinite R n
      then (case w of JNum k \<Rightarrow> numToString R k = numToString R n | other \<Rightarrow> False)
      else w = JNull)"
| "sameJson R (JStr s) w = (w = JStr s)"
| "sameJson R (JArr items) w =
     (case w of
        JArr others \<Rightarrow> list_all2 (\<lambda>same other. same other) (map (sameJson R) items) others
      | other \<Rightarrow> False)"
| "sameJson R (JObj ps) w =
     (case w of
        JObj qs \<Rightarrow>
          list_all
            (\<lambda>k. case (map_of (map (map_prod id (sameJson R)) ps) k, map_of qs k) of
                    (Some same, Some other) \<Rightarrow> same other
                  | other \<Rightarrow> False)
            (map fst ps)
      | other \<Rightarrow> False)"

definition readsBack :: "'n runtime \<Rightarrow> 'n json \<Rightarrow> bool" where
  "readsBack R v =
     (case jsonParse R (jsonStringify R v) of
        None \<Rightarrow> False
      | Some w \<Rightarrow> sameJson R v w)"

text \<open>What holds of every mutation the two loops of the generator append.\<close>

definition generated :: "'n runtime \<Rightarrow> 'n JSONObject \<Rightarrow> ScanConfig \<Rightarrow> 'n Mutation \<Rightarrow> bool" where
  "generated R original config m =
     (m_bodyText m = jsonStringify R (JObj (setDeep original (m_field m) (m_value m))) \<and>
      \<not> notFiniteNumber R (m_value m) \<and>
      (mutateExistingFields config \<or> \<not> hasProperty original (m_field m)))"

text \<open>A header name that \<^verbatim>\<open>parseRawRequestSpec\<close> is to drop.\<close>

definition droppedHeader :: "string \<Rightarrow> bool" where
  "droppedHeader name =
     (toLowerCase name = ''content-length'' \<or> toLowerCase name = ''transfer-encoding'')"

text \<open>
  The marker header of a request specification, and the JSON value the response of
  something sent parses to.
\<close>

definition markerOf :: "RequestSpec \<Rightarrow> string option" where
  "markerOf spec = map_of (sp_headers spec) PluginMarkerHeader"

definition responseJson :: "'n runtime \<Rightarrow> Sent \<Rightarrow> 'n json option" where
  "responseJson R sent =
     (case responseToText (st_response sent) of
        None \<Rightarrow> None
      | Some text \<Rightarrow> jsonParse R text)"

text \<open>
  The bounds of \<^verbatim>\<open>ScanConfig\<close> and \<^verbatim>\<open>ScanTarget\<close>: true when one of them is violated.
\<close>

definition violatesBounds :: "ScanConfig \<Rightarrow> ScanTarget \<Rightarrow> bool" where
  "violatesBounds config target =
     (maxMutations config < 1 \<or> 256 < maxMutations config \<or>
      persistenceDelayMs config < 0 \<or> 10000 < persistenceDelayMs config \<or>
      5000 < length (candidateFields config) \<or>
      (case verification config of
         Disabled \<Rightarrow> False
       | FollowUp url verifyMethod verifyBody delayMs \<Rightarrow> delayMs < 0 \<or> 10000 < delayMs) \<or>
      trim (t_requestId target) = [])"

text \<open>
  The evidence for a finding \<^verbatim>\<open>Persisted\<close> in a record of exchanges: a replay of the
  original body under the marker \<^verbatim>\<open>persisted\<close> whose response parses to a value that has,
  at the field, a primitive that stringifies as the finding's value.
\<close>

definition probeEvidence ::
  "'n runtime \<Rightarrow> 'n ScanContext \<Rightarrow> (RequestSpec \<times> Sent option) list \<Rightarrow> ScanFinding \<Rightarrow> bool" where
  "probeEvidence R ctx ex p =
     (\<exists>sent parsed top.
        (makeSpec (c_request ctx) (c_originalBodyText ctx) ''persisted'', Some sent) \<in> set ex \<and>
        f_persistedRequestId p = Some (req_id (st_request sent)) \<and>
        responseJson R sent = Some parsed \<and>
        getPrimitiveDeep parsed (f_field p) = Some top \<and>
        safeStringify R (Some top) = f_value p)"

text \<open>
  Every finding \<^verbatim>\<open>Persisted\<close> of a list satisfies \<open>E\<close> and comes right after a finding
  \<^verbatim>\<open>Reflected\<close> for the same field, value and mutated request; \<open>prev\<close> is the finding
  before the list.
\<close>

fun persistedJustified ::
  "(ScanFinding \<Rightarrow> bool) \<Rightarrow> ScanFinding option \<Rightarrow> ScanFinding list \<Rightarrow> bool" where
  "persistedJustified E prev [] = True"
| "persistedJustified E prev (f # fs) =
     ((f_kind f \<noteq> Persisted \<or>
       (E f \<and> (case prev of
                 None \<Rightarrow> False
               | Some r \<Rightarrow> f_kind r = Reflected \<and> f_field r = f_field f \<and> f_value r = f_value f \<and>
                           f_mutatedRequestId r = f_mutatedRequestId f))) \<and>
      persistedJustified E (Some f) fs)"


text \<open>
  What a finding \<^verbatim>\<open>StateChanged\<close> says of its follow-up: the field, and the ids of the
  mutated request, of the follow-up request and of the verification baseline. \<open>stateChanges\<close>
  reads them off the findings \<^verbatim>\<open>StateChanged\<close> of a list, in order.
\<close>

type_synonym StateChange = "string \<times> string option \<times> string option \<times> string option"

definition stateChanges :: "ScanFinding list \<Rightarrow> StateChange list" where
  "stateChanges found =
     map (\<lambda>f. (f_field f, f_mutatedRequestId f, f_verifyRequestId f, f_verifyBaselineRequestId f))
       (filter (\<lambda>f. f_kind f = StateChanged) found)"






text \<open>
  The store as \<^verbatim>\<open>sdk.requests.get\<close> shows it in a host state, and the two readings of
  which request an issue gets: \<open>claimedAttachment\<close> follows the words of the claim (each
  alternative applies when its id is present and resolves, else the next is tried),
  \<open>amendedAttachment\<close> picks the alternative by the kind and the presence of the id alone
  and falls back to the baseline when that id does not resolve.
\<close>

definition storeAt :: "'h sdk \<Rightarrow> 'h \<Rightarrow> string \<Rightarrow> Request option" where
  "storeAt sdk h ident = map_option sv_request (fst (requestsGet sdk h ident))"

definition claimedAttachment :: "(string \<Rightarrow> Request option) \<Rightarrow> Request \<Rightarrow> FindingInput \<Rightarrow> Request" where
  "claimedAttachment resolve baseline finding =
     (case (if fi_kind finding = StateChanged
            then Option.bind (fi_verifyRequestId finding) resolve else None) of
        Some verify \<Rightarrow> verify
      | None \<Rightarrow>
          (case (if fi_kind finding = Persisted
                 then Option.bind (fi_persistedRequestId finding) resolve else None) of
             Some persisted \<Rightarrow> persisted
           | None \<Rightarrow>
               (case Option.bind (fi_mutatedRequestId finding) resolve of
                  Some mutated \<Rightarrow> mutated
                | None \<Rightarrow> baseline)))"

definition amendedAttachment :: "(string \<Rightarrow> Request option) \<Rightarrow> Request \<Rightarrow> FindingInput \<Rightarrow> Request" where
  "amendedAttachment resolve baseline finding =
     (let chosen =
            (if fi_kind finding = StateChanged \<and> fi_verifyRequestId finding \<noteq> None
             then fi_verifyRequestId finding
             else if fi_kind finding = Persisted \<and> fi_persistedRequestId finding \<noteq> None
             then fi_persistedRequestId finding
             else fi_mutatedRequestId finding)
      in case Option.bind chosen resolve of
           Some request \<Rightarrow> request
         | None \<Rightarrow> baseline)"

section \<open>Properties of the JSON body model\<close>

lemma map_of_ownKeys: "(map_of ps k \<noteq> None) = (k \<in> ownKeys ps)"
  by (simp add: ownKeys_def map_of_eq_None_iff)

lemma hasProperty_own: "k \<in> ownKeys ps \<Longrightarrow> hasProperty ps k"
  by (simp add: hasProperty_def)

lemma map_of_assignProperty:
  "''__proto__'' \<noteq> k \<Longrightarrow> map_of (assignProperty ps k v) k = Some v"
  by (auto simp add: assignProperty_def update_conv')

lemma ownPath_setDeepParts:
  "parts \<noteq> [] \<Longrightarrow> ''__proto__'' \<notin> set parts \<Longrightarrow>
   ownPath (JObj (setDeepParts obj parts v)) parts = Some v"
proof (induction parts arbitrary: obj)
  case Nil
  then show ?case by simp
next
  case (Cons k ks)
  show ?case
  proof (cases ks)
    case Nil
    with Cons.prems show ?thesis by (simp add: map_of_assignProperty)
  next
    case (Cons k' ks')
    define fresh where
      "fresh = (if \<not> hasProperty obj k \<or> \<not> isRecord (getProperty obj k)
                then [] else spread (getProperty obj k))"
    have "ownPath (JObj (setDeepParts fresh ks v)) ks = Some v"
      using Cons.IH[of fresh] Cons.prems Cons by simp
    moreover have "setDeepParts obj (k # ks) v =
                   assignProperty obj k (JObj (setDeepParts fresh ks v))"
      using Cons by (simp add: fresh_def Let_def)
    ultimately show ?thesis using Cons.prems by (simp add: map_of_assignProperty)
  qed
qed

lemma walkParts_ownPath:
  "ownPath x parts = Some v \<Longrightarrow> walkParts (Val x) parts = Some (Val v)"
proof (induction parts arbitrary: x)
  case Nil
  then show ?case by simp
next
  case (Cons k ks)
  then obtain ps where x: "x = JObj ps" by (cases x) auto
  with Cons.prems obtain y where y: "map_of ps k = Some y" "ownPath y ks = Some v"
    by (auto split: option.splits)
  from y(1) have "k \<in> ownKeys ps" using map_of_ownKeys[of ps k] by simp
  then show ?case using x y Cons.IH[OF y(2)] by (simp add: hasProperty_def getProperty_def)
qed

lemma splitOn_no_sep: "c \<notin> set s \<Longrightarrow> splitOn c s = [s]"
  by (induction s) auto

lemma splitOn_not_Nil: "splitOn c s \<noteq> []"
  by (cases s) (auto split: list.splits)

lemma primitiveOf_Val: "isPrimitive v \<Longrightarrow> primitiveOf (Val v) = Some v"
  by (cases v) auto

lemma getPrimitiveDeep_ownPath:
  assumes "ownPath (JObj ps) (splitOn CHR ''.'' key) = Some v" and "isPrimitive v"
  shows "getPrimitiveDeep (JObj ps) key = Some v"
proof (cases "CHR ''.'' \<in> set key")
  case True
  then show ?thesis using assms walkParts_ownPath[OF assms(1)]
    by (simp add: getPrimitiveDeep_def primitiveOf_Val)
next
  case False
  then have "splitOn CHR ''.'' key = [key]" by (rule splitOn_no_sep)
  with assms(1) have m: "map_of ps key = Some v" by (auto split: option.splits)
  then have "key \<in> ownKeys ps" using map_of_ownKeys[of ps key] by simp
  then show ?thesis using False m assms(2)
    by (simp add: getPrimitiveDeep_def hasProperty_def getProperty_def primitiveOf_Val)
qed

text \<open>
  Writing a primitive with \<^verbatim>\<open>setDeep\<close> and reading it with \<^verbatim>\<open>getPrimitiveDeep\<close> gives the
  value back, whatever the object held along the path, for every path none of whose parts
  is \<^verbatim>\<open>__proto__\<close>.
\<close>

lemma setDeep_roundtrip:
  assumes "''__proto__'' \<notin> set (splitOn CHR ''.'' path)" and "isPrimitive v"
  shows "getPrimitiveDeep (JObj (setDeep obj path v)) path = Some v"
  using assms ownPath_setDeepParts[OF splitOn_not_Nil, of "CHR ''.''" path obj v]
  by (intro getPrimitiveDeep_ownPath) (simp_all add: setDeep_def)

lemma map_of_map_prod: "map_of (map (map_prod id f) ps) k = map_option f (map_of ps k)"
  by (induction ps) auto

lemma sameJson_ownPath:
  "sameJson R v w \<Longrightarrow> ownPath v ks = Some x \<Longrightarrow> \<exists>y. ownPath w ks = Some y \<and> sameJson R x y"
proof (induction ks arbitrary: v w)
  case Nil
  then show ?case by simp
next
  case (Cons k ks)
  then obtain ps where v: "v = JObj ps" by (cases v) auto
  with Cons.prems(2) obtain x1 where x1: "map_of ps k = Some x1" "ownPath x1 ks = Some x"
    by (auto split: option.splits)
  from Cons.prems(1) v obtain qs where w: "w = JObj qs" by (cases w) auto
  from x1(1) have "k \<in> set (map fst ps)" by (force dest: map_of_SomeD)
  with Cons.prems(1) v w x1(1) obtain y1 where y1: "map_of qs k = Some y1" "sameJson R x1 y1"
    by (auto simp: list_all_iff map_of_map_prod split: option.splits)
  from Cons.IH[OF y1(2) x1(2)] y1(1) w show ?case by simp
qed

lemma sameJson_primitive:
  "isPrimitive x \<Longrightarrow> \<not> notFiniteNumber R x \<Longrightarrow> sameJson R x y \<Longrightarrow>
   isPrimitive y \<and> safeStringify R (Some y) = safeStringify R (Some x)"
  by (cases x) (auto split: json.splits)

text \<open>
  C3. \<^verbatim>\<open>set_deep(O, p, v)\<close> then \<^verbatim>\<open>get_primitive_deep(., p)\<close> returns \<open>v\<close> for every
  primitive \<open>v\<close> and dotted path \<open>p\<close> with only object intermediates. The code does not do
  this for the path \<^verbatim>\<open>a.__proto__\<close> on the object \<^verbatim>\<open>{"a":{}}\<close>: the assignment of the string
  \<^verbatim>\<open>"x"\<close> to \<^verbatim>\<open>__proto__\<close> creates no property, and the read finds the inherited accessor,
  whose value is an object, so that \<^verbatim>\<open>getPrimitiveDeep\<close> returns \<^verbatim>\<open>undefined\<close>.
\<close>

theorem C3_proto_part_not_read_back:
  "setDeep [(''a'', JObj [])] ''a.__proto__'' (JStr ''x'') = [(''a'', JObj [])] \<and>
   getPrimitiveDeep (JObj (setDeep [(''a'', JObj [])] ''a.__proto__'' (JStr ''x''))) ''a.__proto__''
     = None \<and>
   safeStringify R None = ''undefined'' \<and>
   safeStringify R (Some (JStr ''x'')) = ''x''"
  by (simp add: setDeep_def assignProperty_def ownKeys_def getProperty_def hasProperty_def
      getPrimitiveDeep_def)

section \<open>Properties of the mutation generator\<close>

lemma valueLoop_emitted:
  "m \<in> set (valueLoop R original maxM config field existingValue cands mutations) \<Longrightarrow>
   m \<in> set mutations \<or>
   (m_field m = field \<and> \<not> notFiniteNumber R (m_value m) \<and>
    m_bodyText m = jsonStringify R (JObj (setDeep original field (m_value m))))"
proof (induction cands arbitrary: mutations)
  case Nil
  then show ?case by simp
next
  case (Cons c cs)
  show ?case
  proof (cases "int (length mutations) \<ge> maxM")
    case True
    with Cons.prems show ?thesis by simp
  next
    case False
    show ?thesis
    proof (cases "resolveCandidate R existingValue c")
      case None
      with False Cons show ?thesis by simp
    next
      case (Some v)
      with False Cons.prems Cons.IH[of mutations]
        Cons.IH[of "mutations @ [\<lparr>m_field = field, m_value = v,
                         m_bodyText = jsonStringify R (JObj (setDeep original field v))\<rparr>]"]
      show ?thesis by (auto split: if_splits)
    qed
  qed
qed

lemma fieldLoop_emitted:
  "m \<in> set (fieldLoop R original maxM config cands names mutations) \<Longrightarrow>
   m \<in> set mutations \<or> generated R original config m"
proof (induction names arbitrary: mutations)
  case Nil
  then show ?case by simp
next
  case (Cons f fs)
  show ?case
  proof (cases "int (length mutations) \<ge> maxM")
    case True
    with Cons.prems show ?thesis by simp
  next
    case False
    show ?thesis
    proof (cases "\<not> mutateExistingFields config \<and> hasProperty original f")
      case True
      with False Cons show ?thesis by simp
    next
      case skip: False
      with False Cons.prems
      have "m \<in> set (fieldLoop R original maxM config cands fs
              (valueLoop R original maxM config f (getProperty original f) cands mutations))"
        by simp
      from Cons.IH[OF this] show ?thesis
        using valueLoop_emitted[of m R original maxM config f "getProperty original f" cands mutations]
          skip
        by (auto simp: generated_def)
    qed
  qed
qed

lemma buildMutations_emitted:
  "m \<in> set (buildMutations R original maxM config) \<Longrightarrow> generated R original config m"
  using fieldLoop_emitted[of m R original maxM config _ _ "[]"]
  by (simp add: buildMutations_def Let_def)

lemma exampleConfig_mutations:
  "buildMutations exampleRuntime [(''plan'', JStr ''free'')] 16 exampleConfig =
     [\<lparr>m_field = ''role'', m_value = JStr ''admin'',
       m_bodyText = exampleStringify (JObj [(''plan'', JStr ''free''), (''role'', JStr ''admin'')])\<rparr>]"
  by code_simp

text \<open>
  C4. With \<^verbatim>\<open>mutateExistingFields = false\<close> no generated mutation has a field that is an own
  key of the baseline object: such a field is skipped whole.
\<close>

theorem C4_existing_fields_skipped:
  assumes "\<not> mutateExistingFields config"
      and "m \<in> set (buildMutations R original maxM config)"
  shows "m_field m \<notin> ownKeys original"
  using buildMutations_emitted[OF assms(2)] assms(1) hasProperty_own[of "m_field m" original]
  by (auto simp: generated_def)

theorem C4_existing_fields_skipped_witness:
  "\<not> mutateExistingFields exampleConfig \<and>
   ownKeys [(''plan'', JStr ''free'' :: int json)] = {''plan''} \<and>
   set (buildMutations exampleRuntime [(''plan'', JStr ''free'')] 16 exampleConfig) \<noteq> {} \<and>
   m_field (hd (buildMutations exampleRuntime [(''plan'', JStr ''free'')] 16 exampleConfig))
     \<notin> ownKeys [(''plan'', JStr ''free'' :: int json)]"
proof -
  let ?ms = "buildMutations exampleRuntime [(''plan'', JStr ''free'')] 16 exampleConfig"
  have a: "\<not> mutateExistingFields exampleConfig" by (simp add: exampleConfig_def)
  have b: "hd ?ms \<in> set ?ms" by (simp add: exampleConfig_mutations)
  have c: "ownKeys [(''plan'', JStr ''free'' :: int json)] = {''plan''}" by (simp add: ownKeys_def)
  have d: "set ?ms \<noteq> {}" by (simp add: exampleConfig_mutations)
  from C4_existing_fields_skipped[OF a b] a c d show ?thesis by blast
qed

text \<open>
  C1, as stated: every generated mutation has a body that parses to an object on which
  \<^verbatim>\<open>get_primitive_deep\<close> at the field returns a value that stringifies as the mutation's
  value, also when the value came from a custom value parsed as a JSON object or array.
  It fails for the custom value \<^verbatim>\<open>{}\<close>: the only mutation sets \<^verbatim>\<open>role\<close> to the empty object,
  its body parses to \<^verbatim>\<open>{"role":{}}\<close>, \<^verbatim>\<open>getPrimitiveDeep\<close> returns only primitives and so
  \<^verbatim>\<open>undefined\<close> here, and \<^verbatim>\<open>"undefined"\<close> is not \<^verbatim>\<open>"{}"\<close>.
\<close>

theorem C1_object_value_counterexample:
  "buildMutations exampleRuntime [] (maxMutations objectConfig) objectConfig =
     [\<lparr>m_field = ''role'', m_value = JObj [],
       m_bodyText = exampleStringify (JObj [(''role'', JObj [])])\<rparr>] \<and>
   jsonParse exampleRuntime (exampleStringify (JObj [(''role'', JObj [])])) =
     Some (JObj [(''role'', JObj [])]) \<and>
   safeStringify exampleRuntime (getPrimitiveDeep (JObj [(''role'', JObj [])]) ''role'') =
     ''undefined'' \<and>
   safeStringify exampleRuntime (Some (JObj [])) = ''{}''"
  by code_simp

text \<open>
  C1, amended: every generated mutation whose value is a string, a number, a boolean or
  \<^verbatim>\<open>null\<close> and whose field has no part named \<^verbatim>\<open>__proto__\<close> has a body that parses to a JSON
  object on which \<^verbatim>\<open>get_primitive_deep\<close> at the field returns a value that stringifies as the
  mutation's value, on a runtime whose \<^verbatim>\<open>JSON.parse\<close> reads back what \<^verbatim>\<open>JSON.stringify\<close> wrote
  of the mutated object.
\<close>

theorem C1_primitive_value_read_back:
  assumes "m \<in> set (buildMutations R original maxM config)"
      and "isPrimitive (m_value m)"
      and "''__proto__'' \<notin> set (splitOn CHR ''.'' (m_field m))"
      and "readsBack R (JObj (setDeep original (m_field m) (m_value m)))"
  shows "\<exists>parsed top.
           jsonParse R (m_bodyText m) = Some (JObj parsed) \<and>
           getPrimitiveDeep (JObj parsed) (m_field m) = Some top \<and>
           safeStringify R (Some top) = safeStringify R (Some (m_value m))"
proof -
  let ?X = "setDeep original (m_field m) (m_value m)"
  from buildMutations_emitted[OF assms(1)]
  have body: "m_bodyText m = jsonStringify R (JObj ?X)"
    and fin: "\<not> notFiniteNumber R (m_value m)"
    by (simp_all add: generated_def)
  from assms(4) body obtain w where w: "jsonParse R (m_bodyText m) = Some w" "sameJson R (JObj ?X) w"
    by (auto simp: readsBack_def split: option.splits)
  then obtain parsed where p: "w = JObj parsed" by (cases w) auto
  have "ownPath (JObj ?X) (splitOn CHR ''.'' (m_field m)) = Some (m_value m)"
    using ownPath_setDeepParts[OF splitOn_not_Nil assms(3)] by (simp add: setDeep_def)
  from sameJson_ownPath[OF w(2) this] p obtain top where
    top: "ownPath (JObj parsed) (splitOn CHR ''.'' (m_field m)) = Some top"
      "sameJson R (m_value m) top" by auto
  from sameJson_primitive[OF assms(2) fin top(2)]
  have t: "isPrimitive top" "safeStringify R (Some top) = safeStringify R (Some (m_value m))"
    by auto
  from getPrimitiveDeep_ownPath[OF top(1) t(1)] w(1) p t(2) show ?thesis by blast
qed

theorem C1_primitive_value_read_back_witness:
  "buildMutations exampleRuntime [(''plan'', JStr ''free'')] 16 exampleConfig =
     [\<lparr>m_field = ''role'', m_value = JStr ''admin'',
       m_bodyText = exampleStringify (JObj [(''plan'', JStr ''free''), (''role'', JStr ''admin'')])\<rparr>] \<and>
   isPrimitive (JStr ''admin'' :: int json) \<and>
   ''__proto__'' \<notin> set (splitOn CHR ''.'' ''role'') \<and>
   readsBack exampleRuntime (JObj (setDeep [(''plan'', JStr ''free'')] ''role'' (JStr ''admin''))) \<and>
   (\<exists>parsed top.
      jsonParse exampleRuntime
        (exampleStringify (JObj [(''plan'', JStr ''free''), (''role'', JStr ''admin'')])) =
        Some (JObj parsed) \<and>
      getPrimitiveDeep (JObj parsed) ''role'' = Some top \<and>
      safeStringify exampleRuntime (Some top) = ''admin'')"
proof -
  let ?m = "\<lparr>m_field = ''role'', m_value = JStr ''admin'' :: int json,
       m_bodyText = exampleStringify (JObj [(''plan'', JStr ''free''), (''role'', JStr ''admin'')])\<rparr>"
  have a: "?m \<in> set (buildMutations exampleRuntime [(''plan'', JStr ''free'')] 16 exampleConfig)"
    by (simp add: exampleConfig_mutations)
  have b: "isPrimitive (m_value ?m)" by simp
  have c: "''__proto__'' \<notin> set (splitOn CHR ''.'' (m_field ?m))" by simp
  have d: "readsBack exampleRuntime (JObj (setDeep [(''plan'', JStr ''free'')] ''role'' (JStr ''admin'')))"
    by code_simp
  have d': "readsBack exampleRuntime (JObj (setDeep [(''plan'', JStr ''free'')] (m_field ?m) (m_value ?m)))"
    using d by simp
  from C1_primitive_value_read_back[OF a b c d'] b c d show ?thesis
    by (simp add: exampleConfig_mutations)
qed

text \<open>
  C2. A custom value that trims to \<^verbatim>\<open>null\<close> becomes the candidate \<open>Fixed\<close> of \<^verbatim>\<open>undefined\<close>,
  and the claim has it emit a mutation for each eligible field. In the code the loop
  skips every candidate whose value is \<^verbatim>\<open>undefined\<close>: with \<^verbatim>\<open>null\<close> as the only value source
  and two eligible fields, no mutation is generated.
\<close>

theorem C2_null_custom_value_emits_nothing:
  "valueCandidates R nullConfig = [Fixed None] \<and>
   \<not> hasProperty [] ''plan'' \<and> \<not> hasProperty [] ''role'' \<and>
   buildMutations R [] (maxMutations nullConfig) nullConfig = []"
  by (simp add: buildMutations_def nullConfig_def exampleConfig_def noModes_def
      valueCandidates_def customValue_def trim_def trimStart_def trimEnd_def isWhiteSpace_def
      hasProperty_def ownKeys_def objectPrototypeMethods_def getProperty_def)

section \<open>Properties of the raw request parser\<close>

lemma flush_pairs:
  "\<forall>h \<in> set (snd (snd st)). \<not> droppedHeader (fst h) \<Longrightarrow>
   \<forall>h \<in> set (snd (snd (flush st))). \<not> droppedHeader (fst h)"
  by (cases st rule: flush.cases) (auto simp: droppedHeader_def Let_def)

lemma headerLine_pairs:
  assumes "\<forall>h \<in> set (snd (snd st)). \<not> droppedHeader (fst h)"
  shows "\<forall>h \<in> set (snd (snd (headerLine st line))). \<not> droppedHeader (fst h)"
proof -
  obtain a b c where st: "st = (a, b, c)" by (cases st)
  from flush_pairs[OF assms] assms show ?thesis
    unfolding st by (auto simp: Let_def split: option.splits)
qed

lemma foldl_headerLine_pairs:
  "\<forall>h \<in> set (snd (snd st)). \<not> droppedHeader (fst h) \<Longrightarrow>
   \<forall>h \<in> set (snd (snd (foldl headerLine st ls))). \<not> droppedHeader (fst h)"
proof (induction ls arbitrary: st)
  case Nil
  then show ?case by simp
next
  case (Cons l ls)
  from Cons.IH[OF headerLine_pairs[OF Cons.prems]] show ?case by simp
qed

lemma applyHeaders_headers:
  "set (sp_headers (applyHeaders spec hs)) \<subseteq> set (sp_headers spec) \<union> set hs"
  unfolding applyHeaders_def
proof (induction hs arbitrary: spec)
  case Nil
  then show ?case by simp
next
  case (Cons h hs)
  obtain n v where h: "h = (n, v)" by (cases h)
  have "set (sp_headers (setHeader n v spec)) \<subseteq> set (sp_headers spec) \<union> {(n, v)}"
    by (auto simp: setHeader_def)
  with Cons.IH[of "setHeader n v spec"] show ?case unfolding h by auto
qed

lemma parseRawRequestSpec_headers:
  assumes "parseRawRequestSpec input = Ok spec" and "h \<in> set (sp_headers spec)"
  shows "\<not> droppedHeader (fst h)"
proof -
  have inv: "\<forall>h \<in> set (snd (snd (flush (foldl headerLine (None, [], []) ls)))). \<not> droppedHeader (fst h)"
    for ls
    by (rule flush_pairs, rule foldl_headerLine_pairs) simp
  from assms(1) obtain url m ls body where
    spec: "spec = setBody body (applyHeaders (setMethod m (newRequestSpec url))
                 (snd (snd (flush (foldl headerLine (None, [], []) ls))))) "
    by (auto simp: parseRawRequestSpec_def Let_def split: if_splits prod.splits list.splits)
  have "set (sp_headers spec) \<subseteq> set (snd (snd (flush (foldl headerLine (None, [], []) ls))))"
    unfolding spec using applyHeaders_headers[of "setMethod m (newRequestSpec url)"]
    by (auto simp: setBody_def setMethod_def newRequestSpec_def)
  with assms(2) inv[of ls] show ?thesis by blast
qed

lemma parseRawRequestSpec_host:
  "(parseRawRequestSpec input = Error ''host is required'') = (trim (in_host input) = [])"
  by (auto simp: parseRawRequestSpec_def Let_def split: prod.splits list.splits)

lemma exampleRawInput_parsed:
  "parseRawRequestSpec exampleRawInput =
     Ok \<lparr>sp_url = ''http://lab:3001/users'', sp_method = ''POST'',
         sp_headers = [(''Host'', ''lab''), (''X-Trace'', ''1 folded'')], sp_body = ''{}''\<rparr>"
  by code_simp

text \<open>
  C8, as stated: the error is \<^verbatim>\<open>host is required\<close> exactly when the host trims to empty,
  and it is \<^verbatim>\<open>port is invalid\<close> for every port outside 1..65535. The two meet at an empty
  host with the port 0: the host is checked first, and the error is \<^verbatim>\<open>host is required\<close>.
\<close>

theorem C8_raw_request_errors_counterexample:
  "in_port (exampleRawInput\<lparr>in_host := ''  '', in_port := 0\<rparr>) < 1 \<and>
   parseRawRequestSpec (exampleRawInput\<lparr>in_host := ''  '', in_port := 0\<rparr>) = Error ''host is required'' \<and>
   parseRawRequestSpec (exampleRawInput\<lparr>in_host := ''  '', in_port := 0\<rparr>) \<noteq> Error ''port is invalid''"
  by code_simp

text \<open>
  C8, amended: \<^verbatim>\<open>parseRawRequestSpec\<close> returns the error \<^verbatim>\<open>host is required\<close> exactly when
  the host trims to empty; it returns \<^verbatim>\<open>port is invalid\<close> for every port outside 1..65535
  when the host does not trim to empty; and a specification it returns has no header
  named \<^verbatim>\<open>Content-Length\<close> or \<^verbatim>\<open>Transfer-Encoding\<close> in any case of letters.
\<close>

theorem C8_raw_request_errors:
  "(parseRawRequestSpec input = Error ''host is required'') = (trim (in_host input) = []) \<and>
   (trim (in_host input) \<noteq> [] \<and> (in_port input < 1 \<or> 65535 < in_port input) \<longrightarrow>
      parseRawRequestSpec input = Error ''port is invalid'') \<and>
   (\<forall>spec. parseRawRequestSpec input = Ok spec \<longrightarrow>
      (\<forall>h \<in> set (sp_headers spec).
         toLowerCase (fst h) \<noteq> ''content-length'' \<and> toLowerCase (fst h) \<noteq> ''transfer-encoding''))"
proof (intro conjI allI impI ballI)
  show "(parseRawRequestSpec input = Error ''host is required'') = (trim (in_host input) = [])"
    by (rule parseRawRequestSpec_host)
next
  assume "trim (in_host input) \<noteq> [] \<and> (in_port input < 1 \<or> 65535 < in_port input)"
  then show "parseRawRequestSpec input = Error ''port is invalid''"
    by (auto simp: parseRawRequestSpec_def)
next
  fix spec h
  assume "parseRawRequestSpec input = Ok spec" "h \<in> set (sp_headers spec)"
  from parseRawRequestSpec_headers[OF this]
  show "toLowerCase (fst h) \<noteq> ''content-length''" "toLowerCase (fst h) \<noteq> ''transfer-encoding''"
    by (auto simp: droppedHeader_def)
qed

theorem C8_raw_request_errors_witness:
  "trim (in_host (exampleRawInput\<lparr>in_port := 70000\<rparr>)) \<noteq> [] \<and>
   65535 < in_port (exampleRawInput\<lparr>in_port := 70000\<rparr>) \<and>
   parseRawRequestSpec (exampleRawInput\<lparr>in_port := 70000\<rparr>) = Error ''port is invalid'' \<and>
   parseRawRequestSpec exampleRawInput \<noteq> Error ''host is required'' \<and>
   map fst (sp_headers (case parseRawRequestSpec exampleRawInput of Ok spec \<Rightarrow> spec)) = [''Host'', ''X-Trace''] \<and>
   list_all (\<lambda>h. toLowerCase (fst h) \<noteq> ''content-length'' \<and> toLowerCase (fst h) \<noteq> ''transfer-encoding'')
     (sp_headers (case parseRawRequestSpec exampleRawInput of Ok spec \<Rightarrow> spec))"
proof -
  have h: "trim (in_host (exampleRawInput\<lparr>in_port := 70000\<rparr>)) \<noteq> []" by code_simp
  have p: "65535 < in_port (exampleRawInput\<lparr>in_port := 70000\<rparr>)" by (simp add: exampleRawInput_def)
  from C8_raw_request_errors[of "exampleRawInput\<lparr>in_port := 70000\<rparr>"] h p
  have a: "parseRawRequestSpec (exampleRawInput\<lparr>in_port := 70000\<rparr>) = Error ''port is invalid''"
    by blast
  from C8_raw_request_errors[of exampleRawInput] exampleRawInput_parsed
  have b: "\<forall>h \<in> set (sp_headers (case parseRawRequestSpec exampleRawInput of Ok spec \<Rightarrow> spec)).
         toLowerCase (fst h) \<noteq> ''content-length'' \<and> toLowerCase (fst h) \<noteq> ''transfer-encoding''"
    by simp
  have c: "parseRawRequestSpec exampleRawInput \<noteq> Error ''host is required''"
    by (simp add: exampleRawInput_parsed)
  from h p a b c show ?thesis by (simp add: exampleRawInput_parsed list_all_iff)
qed

section \<open>Properties of \<^verbatim>\<open>createFindings\<close>\<close>

lemma awaitGet_storeAt:
  "awaitGet sdk ident w = (r, w1) \<Longrightarrow>
   map_option sv_request r = storeAt sdk (hostState w) ident \<and> issues w1 = issues w"
  by (auto simp: awaitGet_def storeAt_def split: prod.splits)

lemma requestToAttach_amended:
  assumes "requestToAttach sdk baseline finding w = (request, w1)"
  shows "request = amendedAttachment (storeAt sdk (hostState w)) baseline finding \<and>
         issues w1 = issues w"
proof -
  have get: "(case awaitGet sdk ident w of
                (Some s, w') \<Rightarrow> (sv_request s, w')
              | (None, w') \<Rightarrow> (baseline, w')) = (request, w1) \<Longrightarrow>
             request = (case storeAt sdk (hostState w) ident of Some q \<Rightarrow> q | None \<Rightarrow> baseline) \<and>
             issues w1 = issues w" for ident
    using awaitGet_storeAt[of sdk ident w]
    by (cases "awaitGet sdk ident w") (auto split: option.splits)
  show ?thesis
  proof (cases "fi_kind finding = StateChanged \<and> fi_verifyRequestId finding \<noteq> None")
    case True
    then obtain v where v: "fi_verifyRequestId finding = Some v" by auto
    with True assms get[of v] show ?thesis
      by (simp add: requestToAttach_def amendedAttachment_def)
  next
    case a: False
    show ?thesis
    proof (cases "fi_kind finding = Persisted \<and> fi_persistedRequestId finding \<noteq> None")
      case True
      then obtain v where v: "fi_persistedRequestId finding = Some v" by auto
      with True assms get[of v] show ?thesis
        by (auto simp add: requestToAttach_def amendedAttachment_def)
    next
      case b: False
      show ?thesis
      proof (cases "fi_mutatedRequestId finding")
        case None
        with a b assms show ?thesis
          by (auto simp add: requestToAttach_def amendedAttachment_def split: if_splits)
      next
        case (Some v)
        have c1: "(if fi_kind finding = StateChanged then fi_verifyRequestId finding else None) = None"
          using a by auto
        have c2: "(if fi_kind finding = Persisted then fi_persistedRequestId finding else None) = None"
          using b by auto
        from assms get[of v] Some a b show ?thesis
          unfolding requestToAttach_def amendedAttachment_def c1 c2 by (auto simp: Let_def)
      qed
    qed
  qed
qed

lemma createLoop_trace:
  "createLoop sdk tid baseline fs n w = (res, w1) \<Longrightarrow>
   \<exists>new. issues w1 = issues w @ new \<and> length new \<le> length fs \<and>
     (\<forall>n1. res = Inr n1 \<longrightarrow> n1 = n + length fs \<and> length new = length fs) \<and>
     (\<forall>i < length new.
        new ! i = issueOf tid (fs ! i)
          (amendedAttachment
             (storeAt sdk (hostState (snd (createLoop sdk tid baseline (take i fs) n w))))
             baseline (fs ! i)))"
proof (induction fs arbitrary: n w)
  case Nil
  then show ?case by auto
next
  case (Cons f fs)
  obtain request w' where ra: "requestToAttach sdk baseline f w = (request, w')"
    by (cases "requestToAttach sdk baseline f w")
  from requestToAttach_amended[OF ra]
  have rq: "request = amendedAttachment (storeAt sdk (hostState w)) baseline f"
    and i1: "issues w' = issues w" by auto
  obtain thrown w2 where ac: "awaitCreate sdk (issueOf tid f request) w' = (thrown, w2)"
    by (cases "awaitCreate sdk (issueOf tid f request) w'")
  then have i2: "issues w2 = issues w' @ [issueOf tid f request]"
    by (auto simp: awaitCreate_def split: prod.splits)
  show ?case
  proof (cases thrown)
    case (Some e)
    with Cons.prems ra ac have r: "res = Inl e" "w1 = w2" by auto
    have "issues w1 = issues w @ [issueOf tid f request]" using r i1 i2 by simp
    moreover have "\<forall>i < length [issueOf tid f request].
        [issueOf tid f request] ! i = issueOf tid ((f # fs) ! i)
          (amendedAttachment
             (storeAt sdk (hostState (snd (createLoop sdk tid baseline (take i (f # fs)) n w))))
             baseline ((f # fs) ! i))"
      using rq by simp
    ultimately show ?thesis using r
      by (intro exI[of _ "[issueOf tid f request]"]) simp
  next
    case None
    with Cons.prems ra ac have rest: "createLoop sdk tid baseline fs (n + 1) w2 = (res, w1)"
      by simp
    have step: "createLoop sdk tid baseline (f # xs) n w = createLoop sdk tid baseline xs (n + 1) w2"
      for xs using ra ac None by simp
    from Cons.IH[OF rest] obtain new where
      new: "issues w1 = issues w2 @ new" "length new \<le> length fs"
        "\<forall>n1. res = Inr n1 \<longrightarrow> n1 = n + 1 + length fs \<and> length new = length fs"
        "\<forall>i < length new.
           new ! i = issueOf tid (fs ! i)
             (amendedAttachment
                (storeAt sdk (hostState (snd (createLoop sdk tid baseline (take i fs) (n + 1) w2))))
                baseline (fs ! i))" by blast
    let ?new = "issueOf tid f request # new"
    have a: "issues w1 = issues w @ ?new" using new(1) i1 i2 by simp
    have b: "length ?new \<le> length (f # fs)" using new(2) by simp
    have c: "\<forall>n1. res = Inr n1 \<longrightarrow> n1 = n + length (f # fs) \<and> length ?new = length (f # fs)"
      using new(3) by simp
    have d: "\<forall>i < length ?new.
        ?new ! i = issueOf tid ((f # fs) ! i)
          (amendedAttachment
             (storeAt sdk (hostState (snd (createLoop sdk tid baseline (take i (f # fs)) n w))))
             baseline ((f # fs) ! i))"
    proof (intro allI impI)
      fix i assume i: "i < length ?new"
      show "?new ! i = issueOf tid ((f # fs) ! i)
          (amendedAttachment
             (storeAt sdk (hostState (snd (createLoop sdk tid baseline (take i (f # fs)) n w))))
             baseline ((f # fs) ! i))"
      proof (cases i)
        case 0
        then show ?thesis using rq by simp
      next
        case (Suc j)
        with i have j: "j < length new" by simp
        from new(4) j have "new ! j = issueOf tid (fs ! j)
             (amendedAttachment
                (storeAt sdk (hostState (snd (createLoop sdk tid baseline (take j fs) (n + 1) w2))))
                baseline (fs ! j))" by blast
        then show ?thesis unfolding Suc using step[of "take j fs"] by simp
      qed
    qed
    from a b c d show ?thesis by blast
  qed
qed

text \<open>
  C7, as stated: the verify request when the kind is \<^verbatim>\<open>StateChanged\<close> and \<^verbatim>\<open>verifyRequestId\<close>
  is present and resolves, else the persisted request when ..., else the mutated request
  when \<^verbatim>\<open>mutatedRequestId\<close> is present and resolves, else the baseline. For a finding
  \<^verbatim>\<open>StateChanged\<close> whose verify request does not resolve and whose mutated request does,
  that reading attaches the mutated request; the code attaches the baseline.
\<close>

theorem C7_attached_request_counterexample:
  "fi_kind staleFinding = StateChanged \<and>
   fi_verifyRequestId staleFinding = Some ''9'' \<and>
   storeAt exampleSdk (hostState (exampleWorld findingsStore [])) ''9'' = None \<and>
   fi_mutatedRequestId staleFinding = Some ''5'' \<and>
   storeAt exampleSdk (hostState (exampleWorld findingsStore [])) ''5''
     = Some (exampleRequest ''5'' (JObj [(''role'', JStr ''admin'')])) \<and>
   claimedAttachment (storeAt exampleSdk (hostState (exampleWorld findingsStore [])))
      (exampleRequest ''1'' (JObj [])) staleFinding
     = exampleRequest ''5'' (JObj [(''role'', JStr ''admin'')]) \<and>
   map i_request
     (issues (snd (createFindings exampleSdk \<lparr>cf_requestId = ''1'', cf_findings = [staleFinding]\<rparr>
                     (exampleWorld findingsStore []))))
     = [exampleRequest ''1'' (JObj [])] \<and>
   exampleRequest ''1'' (JObj []) \<noteq> exampleRequest ''5'' (JObj [(''role'', JStr ''admin'')])"
  by code_simp

text \<open>
  C7, amended: \<^verbatim>\<open>createFindings\<close> hands to \<^verbatim>\<open>findings.create\<close> one issue for each finding,
  in order, up to the first for which it throws; all of them when it returns \<^verbatim>\<open>Ok\<close>, and
  then \<^verbatim>\<open>created\<close> is their number. The issue's \<^verbatim>\<open>dedupeKey\<close> is the trimmed request id, the
  kind and the field joined by colons. Its request is chosen by the kind and the presence
  of an id alone (the verify id for \<^verbatim>\<open>StateChanged\<close> with \<^verbatim>\<open>verifyRequestId\<close>, else the
  persisted id for \<^verbatim>\<open>Persisted\<close> with \<^verbatim>\<open>persistedRequestId\<close>, else \<^verbatim>\<open>mutatedRequestId\<close>): the
  request of that id if the store has it, and the baseline request otherwise, also when
  there is no id. The store is the one the host shows when the loop reaches the finding,
  that is in the state the loop has left after the findings before it.
\<close>

theorem C7_attached_request:
  "\<exists>new.
     issues (snd (createFindings sdk input w)) = issues w @ new \<and>
     length new \<le> length (cf_findings input) \<and>
     (\<forall>r. fst (createFindings sdk input w) = Ok r \<longrightarrow>
        created r = length (cf_findings input) \<and> length new = length (cf_findings input)) \<and>
     (\<forall>i < length new.
        \<exists>saved w0.
          awaitGet sdk (trim (cf_requestId input)) w = (Some saved, w0) \<and>
          i_dedupeKey (new ! i) =
            trim (cf_requestId input) @ '':'' @ kindName (fi_kind (cf_findings input ! i)) @ '':'' @
            fi_field (cf_findings input ! i) \<and>
          i_request (new ! i) =
            amendedAttachment
              (storeAt sdk
                 (hostState (snd (createLoop sdk (trim (cf_requestId input)) (sv_request saved)
                                    (take i (cf_findings input)) 0 w0))))
              (sv_request saved) (cf_findings input ! i))"
proof -
  let ?tid = "trim (cf_requestId input)"
  obtain g w0 where g: "awaitGet sdk ?tid w = (g, w0)" by (cases "awaitGet sdk ?tid w")
  from awaitGet_storeAt[OF g] have i0: "issues w0 = issues w" by simp
  show ?thesis
  proof (cases "length ?tid = 0 \<or> length (cf_findings input) = 0 \<or> 200 < length (cf_findings input)
                \<or> g = None")
    case True
    with g i0 have "issues (snd (createFindings sdk input w)) = issues w"
      "\<forall>r. fst (createFindings sdk input w) \<noteq> Ok r"
      by (auto simp: createFindings_def Let_def)
    then show ?thesis by (intro exI[of _ "[]"]) simp
  next
    case False
    then obtain saved where saved: "g = Some saved" by auto
    obtain res w1 where
      loop: "createLoop sdk ?tid (sv_request saved) (cf_findings input) 0 w0 = (res, w1)"
      by (cases "createLoop sdk ?tid (sv_request saved) (cf_findings input) 0 w0")
    from False g saved loop
    have cf: "snd (createFindings sdk input w) = w1"
      "\<And>r. fst (createFindings sdk input w) = Ok r \<Longrightarrow> res = Inr (created r)"
      by (auto simp: createFindings_def Let_def split: sum.splits)
    from createLoop_trace[OF loop] obtain new where
      new: "issues w1 = issues w0 @ new" "length new \<le> length (cf_findings input)"
        "\<forall>n1. res = Inr n1 \<longrightarrow> n1 = 0 + length (cf_findings input) \<and>
               length new = length (cf_findings input)"
        "\<forall>i < length new.
           new ! i = issueOf ?tid (cf_findings input ! i)
             (amendedAttachment
                (storeAt sdk (hostState (snd (createLoop sdk ?tid (sv_request saved)
                                                (take i (cf_findings input)) 0 w0))))
                (sv_request saved) (cf_findings input ! i))" by blast
    have a: "issues (snd (createFindings sdk input w)) = issues w @ new"
      using cf(1) new(1) i0 by simp
    have c: "\<forall>r. fst (createFindings sdk input w) = Ok r \<longrightarrow>
        created r = length (cf_findings input) \<and> length new = length (cf_findings input)"
      using cf(2) new(3) by auto
    have d: "\<forall>i < length new.
        \<exists>saved w0.
          awaitGet sdk ?tid w = (Some saved, w0) \<and>
          i_dedupeKey (new ! i) =
            ?tid @ '':'' @ kindName (fi_kind (cf_findings input ! i)) @ '':'' @
            fi_field (cf_findings input ! i) \<and>
          i_request (new ! i) =
            amendedAttachment
              (storeAt sdk
                 (hostState (snd (createLoop sdk ?tid (sv_request saved)
                                    (take i (cf_findings input)) 0 w0))))
              (sv_request saved) (cf_findings input ! i)"
    proof (intro allI impI)
      fix i assume "i < length new"
      with new(4) have "new ! i = issueOf ?tid (cf_findings input ! i)
             (amendedAttachment
                (storeAt sdk (hostState (snd (createLoop sdk ?tid (sv_request saved)
                                                (take i (cf_findings input)) 0 w0))))
                (sv_request saved) (cf_findings input ! i))" by blast
      then show "\<exists>saved w0.
          awaitGet sdk ?tid w = (Some saved, w0) \<and>
          i_dedupeKey (new ! i) =
            ?tid @ '':'' @ kindName (fi_kind (cf_findings input ! i)) @ '':'' @
            fi_field (cf_findings input ! i) \<and>
          i_request (new ! i) =
            amendedAttachment
              (storeAt sdk
                 (hostState (snd (createLoop sdk ?tid (sv_request saved)
                                    (take i (cf_findings input)) 0 w0))))
              (sv_request saved) (cf_findings input ! i)"
        using g saved by (intro exI[of _ saved] exI[of _ w0]) (simp add: issueOf_def)
    qed
    from a new(2) c d show ?thesis by blast
  qed
qed

theorem C7_attached_request_witness:
  "fst (createFindings exampleSdk \<lparr>cf_requestId = '' 1 '', cf_findings = [staleFinding]\<rparr>
          (exampleWorld findingsStore [])) = Ok \<lparr>created = 1\<rparr> \<and>
   map (\<lambda>issue. (i_dedupeKey issue, i_request issue))
     (issues (snd (createFindings exampleSdk \<lparr>cf_requestId = '' 1 '', cf_findings = [staleFinding]\<rparr>
                     (exampleWorld findingsStore []))))
     = [(''1:StateChanged:plan'', exampleRequest ''1'' (JObj []))]"
proof -
  let ?input = "\<lparr>cf_requestId = '' 1 '', cf_findings = [staleFinding]\<rparr>"
  let ?w = "exampleWorld findingsStore []"
  have ok: "fst (createFindings exampleSdk ?input ?w) = Ok \<lparr>created = 1\<rparr>" by code_simp
  have t: "trim (cf_requestId ?input) = ''1''" by code_simp
  have i0: "issues ?w = []" by (simp add: exampleWorld_def)
  have get: "awaitGet exampleSdk ''1'' ?w = (Some (exampleSaved ''1'' (JObj []) (JObj [])), ?w)"
    by (simp add: awaitGet_def exampleSdk_def exampleWorld_def findingsStore_def)
  have att: "amendedAttachment (storeAt exampleSdk (hostState ?w))
               (sv_request (exampleSaved ''1'' (JObj []) (JObj []))) staleFinding
             = exampleRequest ''1'' (JObj [])"
    by (simp add: amendedAttachment_def storeAt_def exampleSdk_def exampleWorld_def
        findingsStore_def staleFinding_def exampleSaved_def)
  from C7_attached_request[of exampleSdk ?input ?w] obtain new where
    a: "issues (snd (createFindings exampleSdk ?input ?w)) = issues ?w @ new"
    and c: "\<forall>r. fst (createFindings exampleSdk ?input ?w) = Ok r \<longrightarrow>
        created r = length (cf_findings ?input) \<and> length new = length (cf_findings ?input)"
    and d: "\<forall>i < length new.
        \<exists>saved w0.
          awaitGet exampleSdk (trim (cf_requestId ?input)) ?w = (Some saved, w0) \<and>
          i_dedupeKey (new ! i) =
            trim (cf_requestId ?input) @ '':'' @ kindName (fi_kind (cf_findings ?input ! i)) @ '':'' @
            fi_field (cf_findings ?input ! i) \<and>
          i_request (new ! i) =
            amendedAttachment
              (storeAt exampleSdk
                 (hostState (snd (createLoop exampleSdk (trim (cf_requestId ?input)) (sv_request saved)
                                    (take i (cf_findings ?input)) 0 w0))))
              (sv_request saved) (cf_findings ?input ! i)"
    by blast
  from c ok have len: "length new = 1" by simp
  then obtain issue where new: "new = [issue]" by (cases new) auto
  from d[rule_format, of 0] len
  have "i_dedupeKey issue = ''1'' @ '':'' @ kindName (fi_kind staleFinding) @ '':'' @ fi_field staleFinding \<and>
        i_request issue = exampleRequest ''1'' (JObj [])"
    unfolding t new using get att by simp
  with a i0 new ok show ?thesis by (simp add: staleFinding_def)
qed

section \<open>Properties of the scan\<close>

lemma markerOf_setHeader [simp]: "markerOf (setHeader PluginMarkerHeader m spec) = Some m"
proof -
  have "map_of (filter (\<lambda>h. fst h \<noteq> n) hs) n = None" for n and hs :: "(string \<times> string) list"
    by (induction hs) auto
  then show ?thesis by (simp add: markerOf_def setHeader_def map_add_def)
qed

lemma markerOf_setBody [simp]: "markerOf (setBody b spec) = markerOf spec"
  by (simp add: markerOf_def setBody_def)

lemma markerOf_makeSpec [simp]: "markerOf (makeSpec request body m) = Some m"
  by (simp add: makeSpec_def)

lemma markerOf_makeVerifySpec [simp]: "markerOf (makeVerifySpec u vm vb hs m) = Some m"
  by (simp add: makeVerifySpec_def)

lemma sp_body_makeSpec [simp]: "sp_body (makeSpec request body m) = body"
  by (simp add: makeSpec_def setHeader_def setBody_def)

lemma awaitSend_exchanges:
  "awaitSend sdk spec w = (r, w1) \<Longrightarrow> exchanges w1 = exchanges w @ [(spec, r)]"
  by (auto simp: awaitSend_def split: prod.splits)


lemma makeFinding_simps [simp]:
  "f_kind (makeFinding R ps) = p_kind ps"
  "f_field (makeFinding R ps) = p_field ps"
  "f_value (makeFinding R ps) = safeStringify R (Some (p_value ps))"
  "f_mutatedRequestId (makeFinding R ps) = p_mutatedRequestId ps"
  "f_persistedRequestId (makeFinding R ps) = p_persistedRequestId ps"
  "f_verifyRequestId (makeFinding R ps) = p_verifyRequestId ps"
  "f_verifyBaselineRequestId (makeFinding R ps) = p_verifyBaselineRequestId ps"
  by (simp_all add: makeFinding_def)

lemma parseJsonValue_Ok [simp]: "(parseJsonValue R t = Ok v) = (jsonParse R t = Some v)"
  by (simp add: parseJsonValue_def split: option.splits)

lemma scanContext_simps [simp]:
  "c_config (scanContext R config tid request bodyText br vb) = config"
  "c_request (scanContext R config tid request bodyText br vb) = request"
  "c_originalBodyText (scanContext R config tid request bodyText br vb) = bodyText"
  "c_verifyBaselineJson (scanContext R config tid request bodyText br vb) = vb_json vb"
  "c_verifyBaselineRequestId (scanContext R config tid request bodyText br vb) = vb_requestId vb"
  by (simp_all add: scanContext_def)

lemma runScan_Ok:
  "runScan sdk R target config w = (Resolved (Ok res), w1) \<Longrightarrow>
   scanRequest sdk R (trim (t_requestId target)) config (w\<lparr>shouldStopScan := False\<rparr>) =
     (Resolved (Ok res), w1)"
  by (auto simp: runScan_def Let_def split: if_splits option.splits)

lemma scanRequest_Ok:
  assumes "scanRequest sdk R tid config w = (Resolved (Ok res), w4)"
  obtains saved w1 bodyText originalJson baselineResponse w2 vb w3 where
    "awaitGet sdk tid w = (Some saved, w1)"
    "req_body (sv_request saved) = Some bodyText"
    "jsonParse R bodyText = Some (JObj originalJson)"
    "ensureBaseline sdk saved bodyText w1 = (Some baselineResponse, w2)"
    "verifyBaseline sdk R config (req_url (sv_request saved))
       (headersToPairs (req_headers (sv_request saved))) w2 = (Ok vb, w3)"
    "scanLoop sdk R (scanContext R config tid (sv_request saved) bodyText baselineResponse vb)
       (buildMutations R originalJson (maxMutations config) config) [] w3 =
       (Some (sr_findings res), w4)"
  using assms
  by (auto simp: scanRequest_def Let_def
           split: prod.splits option.splits Result.splits json.splits if_splits)

lemma runScan_rejects:
  "violatesBounds config target \<Longrightarrow>
   snd (runScan sdk R target config w) = w\<lparr>shouldStopScan := False\<rparr>"
  by (cases "verification config") (auto simp: violatesBounds_def runScan_def Let_def)

text \<open>
  C6. \<^verbatim>\<open>runScan\<close> checks the bounds before anything else: when one is violated it
  returns \<^verbatim>\<open>Error\<close> with the message of a violated bound (the first in the order of the
  checks), hence no findings, and it has sent nothing and looked nothing up: the state is
  the one it was called in, with the flag cleared.
\<close>

theorem C6_validation_errors:
  assumes "violatesBounds config target"
  shows "\<exists>e. runScan sdk R target config w = (Resolved (Error e), w\<lparr>shouldStopScan := False\<rparr>) \<and>
     ((e = ''maxMutations must be >= 1'' \<and> maxMutations config < 1) \<or>
      (e = ''maxMutations must be <= 256'' \<and> 256 < maxMutations config) \<or>
      (e = ''persistenceDelayMs must be >= 0'' \<and> persistenceDelayMs config < 0) \<or>
      (e = ''persistenceDelayMs must be <= 10000'' \<and> 10000 < persistenceDelayMs config) \<or>
      (e = ''candidateFields is too large'' \<and> 5000 < length (candidateFields config)) \<or>
      (e = ''verification.delayMs must be >= 0'' \<and>
         (\<exists>url verifyMethod verifyBody delayMs.
            verification config = FollowUp url verifyMethod verifyBody delayMs \<and> delayMs < 0)) \<or>
      (e = ''verification.delayMs must be <= 10000'' \<and>
         (\<exists>url verifyMethod verifyBody delayMs.
            verification config = FollowUp url verifyMethod verifyBody delayMs \<and> 10000 < delayMs)) \<or>
      (e = ''requestId is required'' \<and> trim (t_requestId target) = []))"
proof (cases "verification config")
  case Disabled
  with assms show ?thesis
    by (auto simp: violatesBounds_def runScan_def Let_def)
next
  case (FollowUp url verifyMethod verifyBody delayMs)
  with assms show ?thesis
    by (auto simp: violatesBounds_def runScan_def Let_def)
qed

theorem C6_validation_errors_witness:
  "violatesBounds (exampleConfig\<lparr>maxMutations := 0\<rparr>) exampleTarget \<and>
   runScan exampleSdk exampleRuntime exampleTarget (exampleConfig\<lparr>maxMutations := 0\<rparr>) persistWorld
     = (Resolved (Error ''maxMutations must be >= 1''), persistWorld\<lparr>shouldStopScan := False\<rparr>)"
proof -
  have v: "violatesBounds (exampleConfig\<lparr>maxMutations := 0\<rparr>) exampleTarget"
    by (simp add: violatesBounds_def)
  have c: "maxMutations (exampleConfig\<lparr>maxMutations := 0\<rparr>) = 0"
    "persistenceDelayMs (exampleConfig\<lparr>maxMutations := 0\<rparr>) = 0"
    "candidateFields (exampleConfig\<lparr>maxMutations := 0\<rparr>) = [''plan'', ''role'']"
    "verification (exampleConfig\<lparr>maxMutations := 0\<rparr>) = Disabled"
    "trim (t_requestId exampleTarget) = ''1''"
    by (simp_all add: exampleConfig_def exampleTarget_def trim_def trimStart_def trimEnd_def
        isWhiteSpace_def)
  from C6_validation_errors[OF v, of exampleSdk exampleRuntime persistWorld] c v
  show ?thesis by auto
qed

text \<open>
  C10. \<^verbatim>\<open>runScan\<close> clears \<^verbatim>\<open>shouldStopScan\<close> first: a scan called after \<^verbatim>\<open>stopScan\<close>
  runs as one called without it, its outcome does not depend on the flag it finds, and a
  call that fails the checks leaves the flag cleared.
\<close>

theorem C10_flag_cleared_first:
  "runScan sdk R target config (stopScan w) = runScan sdk R target config w \<and>
   runScan sdk R target config w = runScan sdk R target config (w\<lparr>shouldStopScan := False\<rparr>) \<and>
   (violatesBounds config target \<longrightarrow>
      shouldStopScan (snd (runScan sdk R target config (stopScan w))) = False)"
proof -
  have a: "runScan sdk R target config (stopScan w) = runScan sdk R target config w"
    by (simp add: runScan_def stopScan_def)
  have b: "runScan sdk R target config w = runScan sdk R target config (w\<lparr>shouldStopScan := False\<rparr>)"
    by (simp add: runScan_def)
  have c: "shouldStopScan (snd (runScan sdk R target config (stopScan w))) = False"
    if "violatesBounds config target"
    using runScan_rejects[OF that, of sdk R "stopScan w"] by simp
  from a b c show ?thesis by blast
qed

theorem C10_flag_cleared_first_witness:
  "shouldStopScan (stopScan persistWorld) \<and>
   violatesBounds (exampleConfig\<lparr>maxMutations := 0\<rparr>) exampleTarget \<and>
   shouldStopScan (snd (runScan exampleSdk exampleRuntime exampleTarget
                          (exampleConfig\<lparr>maxMutations := 0\<rparr>) (stopScan persistWorld))) = False \<and>
   runScan exampleSdk exampleRuntime exampleTarget persistConfig (stopScan persistWorld) =
     runScan exampleSdk exampleRuntime exampleTarget persistConfig persistWorld"
proof -
  have v: "violatesBounds (exampleConfig\<lparr>maxMutations := 0\<rparr>) exampleTarget"
    by (simp add: violatesBounds_def)
  have s: "shouldStopScan (stopScan persistWorld)" by (simp add: stopScan_def)
  from C10_flag_cleared_first[of exampleSdk exampleRuntime exampleTarget
         "exampleConfig\<lparr>maxMutations := 0\<rparr>" persistWorld]
       C10_flag_cleared_first[of exampleSdk exampleRuntime exampleTarget persistConfig persistWorld]
       v s
  show ?thesis by blast
qed

subsection \<open>The persistence probe\<close>

lemma persistenceProbe_result:
  assumes "persistenceProbe sdk R ctx m mr mid snip w = (fs, w1)"
  shows "(\<exists>sent. exchanges w1 =
            exchanges w @ [(makeSpec (c_request ctx) (c_originalBodyText ctx) ''persisted'', sent)]) \<and>
         (fs = [] \<or>
          (\<exists>p. fs = [p] \<and> f_kind p = Persisted \<and> f_field p = m_field m \<and>
               f_value p = safeStringify R (Some (m_value m)) \<and>
               f_mutatedRequestId p = Some mid \<and> probeEvidence R ctx (exchanges w1) p))"
proof -
  let ?spec = "makeSpec (c_request ctx) (c_originalBodyText ctx) ''persisted''"
  obtain r w' where s: "awaitSend sdk ?spec w = (r, w')" by (cases "awaitSend sdk ?spec w")
  from awaitSend_exchanges[OF s] have ex: "exchanges w' = exchanges w @ [(?spec, r)]" .
  show ?thesis
  proof (cases r)
    case None
    with assms s ex show ?thesis by (auto simp: persistenceProbe_def)
  next
    case (Some sent)
    with assms s have w1: "w1 = w'"
      by (auto simp: persistenceProbe_def Let_def split: option.splits Result.splits if_splits)
    show ?thesis
    proof (cases "fs = []")
      case True
      with ex w1 show ?thesis by auto
    next
      case False
      with assms s Some obtain body parsed top where
        t: "responseToText (st_response sent) = Some body"
        and p: "jsonParse R body = Some parsed"
        and g: "getPrimitiveDeep parsed (m_field m) = Some top"
        and e: "safeStringify R (Some top) = safeStringify R (Some (m_value m))"
        and fs: "fs = [makeFinding R
                              \<lparr>p_requestId = c_baselineRequestId ctx,
                               p_field = m_field m, p_value = m_value m,
                               p_kind = Persisted,
                               p_baselineResponse = c_baselineResponse ctx,
                               p_mutatedResponse = Some mr,
                               p_persistedResponse = st_response sent,
                               p_mutatedRequestId = Some mid,
                               p_persistedRequestId = Some (req_id (st_request sent)),
                               p_verifyBaselineRequestId = None, p_verifyRequestId = None,
                               p_baselineBodySnippet = c_baselineBodySnippet ctx,
                               p_mutatedBodySnippet = snip,
                               p_persistedBodySnippet = truncateText (Some body) 4000,
                               p_details = ''injected value present after baseline replay''\<rparr>]"
        by (auto simp: persistenceProbe_def Let_def split: option.splits Result.splits if_splits)
      have "probeEvidence R ctx (exchanges w1) (hd fs)"
        unfolding probeEvidence_def fs
        using ex w1 Some t p g e by (auto simp: responseJson_def)
      with fs ex w1 show ?thesis by auto
    qed
  qed
qed

lemma persistedJustified_append:
  "persistedJustified E prev (a @ b) =
     (persistedJustified E prev a \<and>
      persistedJustified E (if a = [] then prev else Some (last a)) b)"
  by (induction a arbitrary: prev) auto

lemma persistedJustified_none:
  "\<forall>f \<in> set fs. f_kind f \<noteq> Persisted \<Longrightarrow> persistedJustified E prev fs"
  by (induction fs arbitrary: prev) auto

lemma persistedJustified_mono:
  "persistedJustified E prev fs \<Longrightarrow> (\<And>f. E f \<Longrightarrow> E' f) \<Longrightarrow> persistedJustified E' prev fs"
  by (induction fs arbitrary: prev) auto

lemma persistedJustified_nth:
  "persistedJustified E prev fs \<Longrightarrow> j < length fs \<Longrightarrow> f_kind (fs ! j) = Persisted \<Longrightarrow>
   E (fs ! j) \<and>
   (\<exists>r. (if j = 0 then prev else Some (fs ! (j - 1))) = Some r \<and> f_kind r = Reflected \<and>
        f_field r = f_field (fs ! j) \<and> f_value r = f_value (fs ! j) \<and>
        f_mutatedRequestId r = f_mutatedRequestId (fs ! j))"
proof (induction fs arbitrary: prev j)
  case Nil
  then show ?case by simp
next
  case (Cons f fs)
  show ?case
  proof (cases j)
    case 0
    with Cons.prems show ?thesis by (auto split: option.splits)
  next
    case (Suc k)
    with Cons.prems have "persistedJustified E (Some f) fs" "k < length fs" "f_kind (fs ! k) = Persisted"
      by auto
    from Cons.IH[OF this] Suc show ?thesis by (cases k) auto
  qed
qed

lemma probeEvidence_mono:
  "probeEvidence R ctx ex p \<Longrightarrow> set ex \<subseteq> set ex' \<Longrightarrow> probeEvidence R ctx ex' p"
  unfolding probeEvidence_def by blast

lemma bodyDiff_result:
  assumes "bodyDiff sdk R ctx m mr mid w = (fs, w1)"
  shows "(\<exists>new. exchanges w1 = exchanges w @ new \<and>
                (\<forall>x \<in> set new. markerOf (fst x) = Some ''persisted'')) \<and>
         (\<forall>prev. persistedJustified
                   (\<lambda>p. confirmPersistence (c_config ctx) \<and> probeEvidence R ctx (exchanges w1) p)
                   prev fs)"
proof -
  have plain: ?thesis if "w1 = w" "\<forall>f \<in> set fs. f_kind f \<noteq> Persisted"
    using that persistedJustified_none[of fs] by auto
  show ?thesis
  proof (cases "responseToText (Some mr)")
    case None
    with assms show ?thesis by (intro plain) (auto simp: bodyDiff_def)
  next
    case (Some body)
    show ?thesis
    proof (cases "jsonParse R body")
      case None
      with assms Some show ?thesis
        by (intro plain) (auto simp: bodyDiff_def parseJsonValue_def)
    next
      case parsed: (Some mutatedJson)
      show ?thesis
      proof (cases "getPrimitiveDeep mutatedJson (m_field m) \<noteq> None \<and>
                    safeStringify R (getPrimitiveDeep mutatedJson (m_field m)) =
                      safeStringify R (Some (m_value m))")
        case False
        with assms Some parsed show ?thesis
          by (intro plain) (auto simp: bodyDiff_def parseJsonValue_def Let_def)
      next
        case True
        show ?thesis
        proof (cases "confirmPersistence (c_config ctx)")
          case False
          with assms Some parsed True show ?thesis
            by (intro plain) (auto simp: bodyDiff_def parseJsonValue_def Let_def)
        next
          case confirm: True
          obtain ps w' where
            pp: "persistenceProbe sdk R ctx m mr mid (truncateText (Some body) 4000) w = (ps, w')"
            by (cases "persistenceProbe sdk R ctx m mr mid (truncateText (Some body) 4000) w")
          from assms Some parsed True confirm pp obtain r where
            fs: "fs = r # ps" and w1: "w1 = w'" and r: "f_kind r = Reflected" "f_field r = m_field m"
              "f_value r = safeStringify R (Some (m_value m))" "f_mutatedRequestId r = Some mid"
            by (auto simp: bodyDiff_def parseJsonValue_def Let_def)
          from persistenceProbe_result[OF pp] r confirm
          show ?thesis unfolding fs w1 by auto
        qed
      qed
    qed
  qed
qed

lemma codeChanged_kind: "f \<in> set (codeChanged R ctx m mr mid) \<Longrightarrow> f_kind f = CodeChanged"
  by (auto simp: codeChanged_def split: option.splits if_splits)

lemma stateChanged_kind:
  "f \<in> set (stateChanged R ctx m mid B vid vsent) \<Longrightarrow> f_kind f = StateChanged"
  by (auto simp: stateChanged_def Let_def split: option.splits Result.splits json.splits if_splits)

lemma followUp_result:
  assumes "followUp sdk R ctx m mid w = (fs, w1)"
  shows "(\<forall>f \<in> set fs. f_kind f = StateChanged) \<and>
         (\<exists>new. exchanges w1 = exchanges w @ new \<and>
                (\<forall>x \<in> set new. markerOf (fst x) = Some ''verify-mutated''))"
  using assms stateChanged_kind
  by (auto simp: followUp_def split: verification.splits option.splits prod.splits
           dest!: awaitSend_exchanges)

lemma scanMutation_persisted:
  assumes "scanMutation sdk R ctx m w = (Some out, w1)"
  shows "set (exchanges w) \<subseteq> set (exchanges w1) \<and>
         (\<forall>prev. persistedJustified
                   (\<lambda>p. confirmPersistence (c_config ctx) \<and> probeEvidence R ctx (exchanges w1) p)
                   prev out)"
proof -
  let ?spec = "makeSpec (c_request ctx) (m_bodyText m) ''mutated''"
  obtain r w' where s: "awaitSend sdk ?spec w = (r, w')" by (cases "awaitSend sdk ?spec w")
  from awaitSend_exchanges[OF s] have ex: "exchanges w' = exchanges w @ [(?spec, r)]" .
  show ?thesis
  proof (cases r)
    case None
    with assms s ex show ?thesis
      by (auto simp: scanMutation_def intro!: persistedJustified_none)
  next
    case (Some sent)
    with assms s obtain mr where mr: "st_response sent = Some mr"
      by (auto simp: scanMutation_def split: option.splits)
    obtain changed w2 where fu: "followUp sdk R ctx m (req_id (st_request sent)) w' = (changed, w2)"
      by (cases "followUp sdk R ctx m (req_id (st_request sent)) w'")
    obtain diffed w3 where bd: "bodyDiff sdk R ctx m mr (req_id (st_request sent)) w2 = (diffed, w3)"
      by (cases "bodyDiff sdk R ctx m mr (req_id (st_request sent)) w2")
    from assms s Some mr fu bd
    have em: "out = codeChanged R ctx m mr (req_id (st_request sent)) @ changed @ diffed"
      and w1: "w1 = w3"
      by (auto simp: scanMutation_def Let_def)
    from followUp_result[OF fu] bodyDiff_result[OF bd] ex
    have sub: "set (exchanges w) \<subseteq> set (exchanges w1)" unfolding w1 by auto
    have a: "persistedJustified E prev (codeChanged R ctx m mr (req_id (st_request sent)) @ changed)"
      for E prev
      using followUp_result[OF fu] codeChanged_kind[of _ R ctx m mr "req_id (st_request sent)"]
      by (intro persistedJustified_none) auto
    show ?thesis
      using sub a bodyDiff_result[OF bd] unfolding em w1
      by (simp add: persistedJustified_append del: append_assoc add: append_assoc[symmetric])
  qed
qed

lemma scanLoop_persisted:
  assumes "scanLoop sdk R ctx ms found w = (Some fs, w1)"
      and "persistedJustified
             (\<lambda>p. confirmPersistence (c_config ctx) \<and> probeEvidence R ctx (exchanges w) p) None found"
  shows "persistedJustified
           (\<lambda>p. confirmPersistence (c_config ctx) \<and> probeEvidence R ctx (exchanges w1) p) None fs"
  using assms
proof (induction ms arbitrary: found w)
  case Nil
  then show ?case by simp
next
  case (Cons m ms)
  show ?case
  proof (cases "shouldStopScan w")
    case True
    with Cons.prems show ?thesis by simp
  next
    case False
    with Cons.prems(1) obtain out w' where
      sm: "scanMutation sdk R ctx m w = (Some out, w')"
      and rest: "scanLoop sdk R ctx ms (found @ out) w' = (Some fs, w1)"
      by (auto split: prod.splits option.splits)
    from scanMutation_persisted[OF sm]
    have sub: "set (exchanges w) \<subseteq> set (exchanges w')"
      and em: "\<And>prev. persistedJustified
                   (\<lambda>p. confirmPersistence (c_config ctx) \<and> probeEvidence R ctx (exchanges w') p)
                   prev out"
      by auto
    have "persistedJustified
            (\<lambda>p. confirmPersistence (c_config ctx) \<and> probeEvidence R ctx (exchanges w') p) None found"
    proof (rule persistedJustified_mono[OF Cons.prems(2)])
      fix f
      assume "confirmPersistence (c_config ctx) \<and> probeEvidence R ctx (exchanges w) f"
      then show "confirmPersistence (c_config ctx) \<and> probeEvidence R ctx (exchanges w') f"
        using probeEvidence_mono[OF _ sub] by blast
    qed
    with em have "persistedJustified
            (\<lambda>p. confirmPersistence (c_config ctx) \<and> probeEvidence R ctx (exchanges w') p) None
            (found @ out)"
      by (simp add: persistedJustified_append)
    from Cons.IH[OF rest this] show ?thesis .
  qed
qed

lemma persist_run:
  "(case runScan exampleSdk exampleRuntime exampleTarget persistConfig persistWorld of
      (Resolved (Ok res), w1) \<Rightarrow>
         map (\<lambda>f. (f_kind f, f_field f, f_value f, f_mutatedRequestId f, f_persistedRequestId f)) (sr_findings res) =
           [(Reflected, ''role'', ''admin'', Some ''2'', None),
            (Persisted, ''role'', ''admin'', Some ''2'', Some ''3'')]
    | other \<Rightarrow> False)"
  by code_simp

text \<open>
  C5. In the result of a scan, a finding \<^verbatim>\<open>Persisted\<close> occurs only if
  \<^verbatim>\<open>confirmPersistence\<close> is set; the finding right before it is a finding \<^verbatim>\<open>Reflected\<close> for
  the same field, value and mutated request; and the scan has sent the body of the stored
  baseline again under the marker \<^verbatim>\<open>persisted\<close> and received a response that parses to a
  value on which \<^verbatim>\<open>get_primitive_deep\<close> at the field gives a primitive that stringifies as
  the finding's value.
\<close>

theorem C5_persisted_after_reflected:
  assumes "runScan sdk R target config w = (Resolved (Ok res), w1)"
      and "j < length (sr_findings res)"
      and "f_kind (sr_findings res ! j) = Persisted"
  shows "confirmPersistence config \<and> 0 < j \<and>
         f_kind (sr_findings res ! (j - 1)) = Reflected \<and>
         f_field (sr_findings res ! (j - 1)) = f_field (sr_findings res ! j) \<and>
         f_value (sr_findings res ! (j - 1)) = f_value (sr_findings res ! j) \<and>
         f_mutatedRequestId (sr_findings res ! (j - 1)) = f_mutatedRequestId (sr_findings res ! j) \<and>
         (\<exists>saved spec sent parsed top.
            fst (awaitGet sdk (trim (t_requestId target)) (w\<lparr>shouldStopScan := False\<rparr>)) = Some saved \<and>
            req_body (sv_request saved) = Some (sp_body spec) \<and>
            (spec, Some sent) \<in> set (exchanges w1) \<and>
            markerOf spec = Some ''persisted'' \<and>
            f_persistedRequestId (sr_findings res ! j) = Some (req_id (st_request sent)) \<and>
            responseJson R sent = Some parsed \<and>
            getPrimitiveDeep parsed (f_field (sr_findings res ! j)) = Some top \<and>
            safeStringify R (Some top) = f_value (sr_findings res ! j))"
proof -
  from runScan_Ok[OF assms(1)] obtain saved :: SavedRequest and w0 bodyText baselineResponse vb w3 ms
    where get: "awaitGet sdk (trim (t_requestId target)) (w\<lparr>shouldStopScan := False\<rparr>) = (Some saved, w0)"
      and body: "req_body (sv_request saved) = Some bodyText"
      and loop: "scanLoop sdk R
             (scanContext R config (trim (t_requestId target)) (sv_request saved) bodyText
                baselineResponse vb) ms [] w3 = (Some (sr_findings res), w1)"
    by (rule scanRequest_Ok)
  let ?ctx = "scanContext R config (trim (t_requestId target)) (sv_request saved) bodyText
                baselineResponse vb"
  have "persistedJustified
          (\<lambda>p. confirmPersistence (c_config ?ctx) \<and> probeEvidence R ?ctx (exchanges w1) p) None
          (sr_findings res)"
    by (rule scanLoop_persisted[OF loop]) simp
  from persistedJustified_nth[OF this assms(2,3)]
  have E: "confirmPersistence config" "probeEvidence R ?ctx (exchanges w1) (sr_findings res ! j)"
    and prev: "0 < j \<and>
         f_kind (sr_findings res ! (j - 1)) = Reflected \<and>
         f_field (sr_findings res ! (j - 1)) = f_field (sr_findings res ! j) \<and>
         f_value (sr_findings res ! (j - 1)) = f_value (sr_findings res ! j) \<and>
         f_mutatedRequestId (sr_findings res ! (j - 1)) = f_mutatedRequestId (sr_findings res ! j)"
    by (cases j; auto)+
  from E(2) obtain sent parsed top where
    ev: "(makeSpec (sv_request saved) bodyText ''persisted'', Some sent) \<in> set (exchanges w1)"
      "f_persistedRequestId (sr_findings res ! j) = Some (req_id (st_request sent))"
      "responseJson R sent = Some parsed"
      "getPrimitiveDeep parsed (f_field (sr_findings res ! j)) = Some top"
      "safeStringify R (Some top) = f_value (sr_findings res ! j)"
    unfolding probeEvidence_def by auto
  have "\<exists>saved spec sent parsed top.
            fst (awaitGet sdk (trim (t_requestId target)) (w\<lparr>shouldStopScan := False\<rparr>)) = Some saved \<and>
            req_body (sv_request saved) = Some (sp_body spec) \<and>
            (spec, Some sent) \<in> set (exchanges w1) \<and>
            markerOf spec = Some ''persisted'' \<and>
            f_persistedRequestId (sr_findings res ! j) = Some (req_id (st_request sent)) \<and>
            responseJson R sent = Some parsed \<and>
            getPrimitiveDeep parsed (f_field (sr_findings res ! j)) = Some top \<and>
            safeStringify R (Some top) = f_value (sr_findings res ! j)"
    apply (rule exI[of _ saved])
    apply (rule exI[of _ "makeSpec (sv_request saved) bodyText ''persisted''"])
    apply (rule exI[of _ sent], rule exI[of _ parsed], rule exI[of _ top])
    using get body ev by simp
  with E(1) prev show ?thesis by blast
qed

theorem C5_persisted_after_reflected_witness:
  "\<exists>res w1.
     runScan exampleSdk exampleRuntime exampleTarget persistConfig persistWorld = (Resolved (Ok res), w1) \<and>
     length (sr_findings res) = 2 \<and>
     f_kind (sr_findings res ! 1) = Persisted \<and>
     confirmPersistence persistConfig \<and>
     f_kind (sr_findings res ! 0) = Reflected \<and>
     f_field (sr_findings res ! 0) = f_field (sr_findings res ! 1) \<and>
     f_value (sr_findings res ! 0) = f_value (sr_findings res ! 1) \<and>
     (\<exists>spec sent parsed top.
        (spec, Some sent) \<in> set (exchanges w1) \<and>
        markerOf spec = Some ''persisted'' \<and>
        f_persistedRequestId (sr_findings res ! 1) = Some (req_id (st_request sent)) \<and>
        responseJson exampleRuntime sent = Some parsed \<and>
        getPrimitiveDeep parsed (f_field (sr_findings res ! 1)) = Some top \<and>
        safeStringify exampleRuntime (Some top) = f_value (sr_findings res ! 1))"
proof -
  from persist_run obtain res w1 where
    r: "runScan exampleSdk exampleRuntime exampleTarget persistConfig persistWorld = (Resolved (Ok res), w1)"
    and m: "map (\<lambda>f. (f_kind f, f_field f, f_value f, f_mutatedRequestId f, f_persistedRequestId f))
              (sr_findings res) =
           [(Reflected, ''role'', ''admin'', Some ''2'', None),
            (Persisted, ''role'', ''admin'', Some ''2'', Some ''3'')]"
    by (auto split: prod.splits Promise.splits Result.splits)
  from m obtain x y where fs: "sr_findings res = [x, y]" and k: "f_kind y = Persisted"
    by (auto simp: map_eq_Cons_conv)
  have j: "(1::nat) < length (sr_findings res)" and kj: "f_kind (sr_findings res ! 1) = Persisted"
    using fs k by simp_all
  from C5_persisted_after_reflected[OF r j kj] r fs k show ?thesis by auto
qed

subsection \<open>The follow-up diff\<close>



lemma stateChanges_append [simp]: "stateChanges (xs @ ys) = stateChanges xs @ stateChanges ys"
  by (simp add: stateChanges_def)











lemma c_verifyUrlResolved_scanContext [simp]:
  "c_verifyUrlResolved (scanContext R config tid request bodyText br vb) = vb_urlResolved vb"
  by (simp add: scanContext_def)





end
